theory Spec2Isabelle
  imports Main "HOL-Library.Word" "HOL-Library.AList" "HOL-Library.Monad_Syntax"
begin

section \<open>MemLeakTracker: the tracker of MemLeakTracker.cpp\<close>

text \<open>
  The model follows the debug configuration of the file: leak tracking and stack traces
  are both enabled. Pointers and \<open>size_t\<close> are machine words of one width \<open>'a\<close>
  (32 for a Win32 build, 64 for a Win64 build). The records are polymorphic in the word
  type \<open>'w\<close>, which every function instantiates to \<open>'a word\<close>.
\<close>

subsection \<open>Config\<close>

definition STACK_TRACE_DEPTH :: nat where
  "STACK_TRACE_DEPTH = 10"

subsection \<open>Text: the characters and the C runtime's conversions\<close>

abbreviation NL :: string where
  "NL \<equiv> [CHR 0x0A]"

abbreviation TAB :: string where
  "TAB \<equiv> [CHR 0x09]"

definition digit_char :: "nat \<Rightarrow> char" where
  "digit_char d = ''0123456789ABCDEF'' ! d"

fun dec_nat :: "nat \<Rightarrow> string" where
  "dec_nat n = (if n < 10 then [digit_char n] else dec_nat (n div 10) @ [digit_char (n mod 10)])"

declare dec_nat.simps [simp del]

text \<open>\<open>%zu\<close>: a \<open>size_t\<close> in decimal.\<close>

definition fmt_zu :: "'a::len word \<Rightarrow> string" where
  "fmt_zu x = dec_nat (unat x)"

text \<open>\<open>%d\<close>: the 32 bits of the argument read as a signed int, in decimal.\<close>

definition fmt_d :: "32 word \<Rightarrow> string" where
  "fmt_d x = (if sint x < 0 then ''-'' @ dec_nat (nat (- sint x)) else dec_nat (nat (sint x)))"

text \<open>\<open>%p\<close> of the Microsoft runtime: two upper-case hexadecimal digits for each
  byte of the pointer, most significant first, no prefix.\<close>

definition fmt_p :: "'a::len word \<Rightarrow> string" where
  "fmt_p a = map (\<lambda>i. digit_char (unat a div 16 ^ i mod 16)) (rev [0..<2 * (LENGTH('a) div 8)])"

text \<open>\<open>_sntprintf_s (buffer, count, ...)\<close> on a buffer of \<open>count + 1\<close> characters
  stores at most \<open>count\<close> characters of the formatted text.\<close>

definition sntprintf_s :: "nat \<Rightarrow> string \<Rightarrow> string" where
  "sntprintf_s count s = take count s"

subsection \<open>Data\<close>

record 'w AllocationInfo =
  size_bytes :: 'w
  stack :: "'w list"

text \<open>A Windows critical section: the thread that owns it, and how many times that thread
  has entered it.\<close>

record CRITICAL_SECTION =
  OwningThread :: "nat option"
  RecursionCount :: nat

record IMAGEHLP_LINE =
  FileName :: string
  LineNumber :: "32 word"

text \<open>What the hooks ask of the real allocator, in order.\<close>

datatype 'w allocator_call = Malloc 'w 'w | Free 'w

text \<open>
  The process-wide state: the members of the one \<open>MemTracker\<close> object (\<open>critsec\<close>,
  \<open>paused\<close>, \<open>memTrackerPool\<close>), the static \<open>StackTracker::dbgInitialized\<close>, the
  strings passed to \<open>OutputDebugString\<close> so far, and the calls made to \<open>malloc\<close> and
  \<open>free\<close> so far. The pool is the list of the container's entries, one for each key.
  The order in which the container iterates over its entries is not fixed by the code,
  and the order of the list carries no meaning of its own: the destructor walks the list
  as it is, and what is proved of the destructor is proved for every order of the list.

  A function of a call returns \<open>None\<close> when the call does not return: the thread waits
  for a critical section another thread holds, or the process dies inside the container.
\<close>

record 'w process =
  critsec :: CRITICAL_SECTION
  paused :: bool
  memTrackerPool :: "('w \<times> 'w AllocationInfo) list"
  dbgInitialized :: bool
  debug_output :: "string list"
  allocator_calls :: "'w allocator_call list"

text \<open>
  One call of a hooked entry point, as the environment drives it. \<open>New sz ret bt inner\<close>
  is \<open>operator new (sz)\<close> for which \<open>malloc\<close> returns \<open>ret\<close>; \<open>bt\<close> are the return
  addresses \<open>RtlCaptureStackBackTrace\<close> finds on the calling thread's stack during the
  call, and \<open>inner\<close> are the calls that the container of the pool makes back into the
  hooks for its own storage, with what \<open>malloc\<close> returns for each, should the call reach
  an insertion of a new key or an erasure.
\<close>

datatype 'w hook_call =
    New 'w 'w "'w list" "'w hook_call list"
  | NewArray 'w 'w "'w list" "'w hook_call list"
  | NewAt 'w string int 'w "'w list" "'w hook_call list"
  | NewArrayAt 'w string int 'w "'w list" "'w hook_call list"
  | Delete 'w "'w list" "'w hook_call list"
  | DeleteArray 'w "'w list" "'w hook_call list"
  | DeleteAt 'w string int "'w list" "'w hook_call list"
  | DeleteArrayAt 'w string int "'w list" "'w hook_call list"

text \<open>What a caller sees of one call: the pointer an allocation entry point returned, or
  the pointer handed to a deallocation entry point.\<close>

datatype 'w observed = Allocated 'w | Freed 'w

subsection \<open>The output sink and the real allocator\<close>

definition OutputDebugString :: "string \<Rightarrow> 'w process \<Rightarrow> 'w process" where
  "OutputDebugString s w = w\<lparr>debug_output := debug_output w @ [s]\<rparr>"

definition malloc :: "'w \<Rightarrow> 'w \<Rightarrow> 'w process \<Rightarrow> 'w \<times> 'w process" where
  "malloc sz ret w = (ret, w\<lparr>allocator_calls := allocator_calls w @ [Malloc sz ret]\<rparr>)"

definition free :: "'w \<Rightarrow> 'w process \<Rightarrow> 'w process" where
  "free p w = w\<lparr>allocator_calls := allocator_calls w @ [Free p]\<rparr>"

subsection \<open>StackTracker\<close>

definition InitializeSym :: "'w process \<Rightarrow> 'w process" where
  "InitializeSym w = (if \<not> dbgInitialized w then w\<lparr>dbgInitialized := True\<rparr> else w)"

text \<open>The constructor: the array is zeroed, then the captured return addresses are
  written from its start, at most \<open>STACK_TRACE_DEPTH\<close> of them.\<close>

definition StackTracker_ctor :: "'a::len word list \<Rightarrow> 'a word list" where
  "StackTracker_ctor bt =
     take STACK_TRACE_DEPTH bt @ replicate (STACK_TRACE_DEPTH - length bt) 0"

definition frame_line :: "('a::len word \<Rightarrow> IMAGEHLP_LINE option) \<Rightarrow> 'a word \<Rightarrow> string" where
  "frame_line resolver a =
     (case resolver a of
        Some line \<Rightarrow>
          sntprintf_s 1023 (TAB @ TAB @ FileName line @ '' ('' @ fmt_d (LineNumber line) @ '')'' @ NL)
      | None \<Rightarrow>
          sntprintf_s 1023 (TAB @ TAB @ ''Unresolved address: '' @ fmt_p a @ NL))"

definition DumpToDebugOutput ::
  "('a::len word \<Rightarrow> IMAGEHLP_LINE option) \<Rightarrow> 'a word list \<Rightarrow> 'a word process \<Rightarrow> 'a word process" where
  "DumpToDebugOutput resolver stk w =
     (let w1 = InitializeSym w;
          w2 = foldl (\<lambda>w x. if stk ! x \<noteq> 0
                              then OutputDebugString (frame_line resolver (stk ! x)) w
                              else w)
                 w1 [0..<STACK_TRACE_DEPTH]
      in OutputDebugString NL w2)"

subsection \<open>Mutex and Lock\<close>

text \<open>\<open>EnterCriticalSection\<close>: a free section is taken, the owning thread enters again
  without waiting, any other thread waits (\<open>None\<close>: the call does not return while the
  owner holds the section).\<close>

definition EnterCriticalSection :: "nat \<Rightarrow> CRITICAL_SECTION \<Rightarrow> CRITICAL_SECTION option" where
  "EnterCriticalSection tid cs =
     (case OwningThread cs of
        None \<Rightarrow> Some \<lparr>OwningThread = Some tid, RecursionCount = 1\<rparr>
      | Some owner \<Rightarrow>
          if owner = tid then Some (cs\<lparr>RecursionCount := RecursionCount cs + 1\<rparr>) else None)"

definition LeaveCriticalSection :: "CRITICAL_SECTION \<Rightarrow> CRITICAL_SECTION" where
  "LeaveCriticalSection cs =
     (if RecursionCount cs \<le> 1 then \<lparr>OwningThread = None, RecursionCount = 0\<rparr>
      else cs\<lparr>RecursionCount := RecursionCount cs - 1\<rparr>)"

definition Lock_ctor :: "nat \<Rightarrow> 'w process \<Rightarrow> 'w process option" where
  "Lock_ctor tid w =
     (case EnterCriticalSection tid (critsec w) of
        None \<Rightarrow> None
      | Some cs \<Rightarrow> Some (w\<lparr>critsec := cs\<rparr>))"

definition Lock_dtor :: "'w process \<Rightarrow> 'w process" where
  "Lock_dtor w = w\<lparr>critsec := LeaveCriticalSection (critsec w)\<rparr>"

subsection \<open>AllocationInfo and the container of the pool\<close>

definition AllocationInfo_ctor :: "'a::len word \<Rightarrow> 'a word list \<Rightarrow> 'a word AllocationInfo" where
  "AllocationInfo_ctor sz bt = \<lparr>size_bytes = sz, stack = StackTracker_ctor bt\<rparr>"

text \<open>
  \<open>std::unordered_map::insert_or_assign\<close> and \<open>erase\<close>. The container gets its nodes and
  buckets from the global \<open>operator new\<close> and returns them to the global
  \<open>operator delete\<close>, which are the hooks below: \<open>reenter\<close> runs those calls and
  gives what each of them returned.

  \<open>insert_or_assign\<close> on a key the container holds assigns the record in place and asks
  for no storage. On a new key it allocates before the entry is linked (the list gets the
  entry at its end, a choice of the model), and it uses what
  \<open>operator new\<close> returns without a test: these hooks return a null pointer when
  \<open>malloc\<close> does, the container writes through it, and the process dies (\<open>None\<close>).

  \<open>erase\<close> unlinks the entry before its node is released and returns the number of
  entries removed.
\<close>

definition insert_or_assign ::
  "('a::len word process \<Rightarrow> ('a word observed list \<times> 'a word process) option) \<Rightarrow> 'a word
     \<Rightarrow> 'a word AllocationInfo \<Rightarrow> 'a word process \<Rightarrow> 'a word process option" where
  "insert_or_assign reenter p info w =
     (if p \<in> fst ` set (memTrackerPool w)
      then Some (w\<lparr>memTrackerPool := AList.update p info (memTrackerPool w)\<rparr>)
      else do {
        (returned, w1) \<leftarrow> reenter w;
        if Allocated 0 \<in> set returned then None
        else Some (w1\<lparr>memTrackerPool := AList.update p info (memTrackerPool w1)\<rparr>)
      })"

definition erase ::
  "('w process \<Rightarrow> ('w observed list \<times> 'w process) option) \<Rightarrow> 'w \<Rightarrow> 'w process
     \<Rightarrow> (nat \<times> 'w process) option" where
  "erase reenter p w = do {
     let erased = length (filter (\<lambda>entry. fst entry = p) (memTrackerPool w));
     (returned, w1) \<leftarrow> reenter (w\<lparr>memTrackerPool := AList.delete p (memTrackerPool w)\<rparr>);
     Some (erased, w1)
   }"

subsection \<open>MemTracker\<close>

text \<open>The constructor: the members are initialised (\<open>paused = true\<close>, an empty pool), then
  the body clears \<open>paused\<close>.\<close>

definition MemTracker_ctor :: "'w process" where
  "MemTracker_ctor =
     \<lparr>critsec = \<lparr>OwningThread = None, RecursionCount = 0\<rparr>, paused = True,
      memTrackerPool = [], dbgInitialized = False, debug_output = [],
      allocator_calls = []\<rparr> \<lparr>paused := False\<rparr>"

definition no_leaks_banner :: string where
  "no_leaks_banner =
     replicate 58 (CHR ''*'') @ NL @ TAB @ TAB @ TAB @ TAB @ TAB @ ''No memleaks found.'' @ NL
     @ replicate 58 (CHR ''*'') @ NL @ NL"

definition report_entry ::
  "('a::len word \<Rightarrow> IMAGEHLP_LINE option) \<Rightarrow> 'a word process \<times> 'a word
     \<Rightarrow> 'a word \<times> 'a word AllocationInfo \<Rightarrow> 'a word process \<times> 'a word" where
  "report_entry resolver acc entry =
     (let (w, totalLeaked) = acc;
          w1 = OutputDebugString
                 (sntprintf_s 1023 (''Leak: '' @ fmt_zu (size_bytes (snd entry)) @ '' bytes'' @ NL)) w;
          w2 = DumpToDebugOutput resolver (stack (snd entry)) w1
      in (w2, totalLeaked + size_bytes (snd entry)))"

text \<open>The destructor's body.\<close>

definition MemTracker_dtor ::
  "('a::len word \<Rightarrow> IMAGEHLP_LINE option) \<Rightarrow> 'a word process \<Rightarrow> 'a word process" where
  "MemTracker_dtor resolver w =
     (let w1 = w\<lparr>paused := True\<rparr> in
      if length (memTrackerPool w1) \<noteq> 0 then
        let w2 = OutputDebugString (NL @ ''--- Memleaks start here ---'' @ NL @ NL) w1;
            (w3, totalLeaked) = foldl (report_entry resolver) (w2, 0) (memTrackerPool w2)
        in OutputDebugString
             (sntprintf_s 1023 (TAB @ ''Total bytes leaked: '' @ fmt_zu totalLeaked @ NL @ NL)) w3
      else OutputDebugString no_leaks_banner w1)"

definition AddPointer ::
  "('a::len word process \<Rightarrow> ('a word observed list \<times> 'a word process) option) \<Rightarrow> nat \<Rightarrow> 'a word \<Rightarrow> 'a word
     \<Rightarrow> 'a word list \<Rightarrow> 'a word process \<Rightarrow> 'a word process option" where
  "AddPointer reenter tid p sz bt w = do {
     w1 \<leftarrow> Lock_ctor tid w;
     w2 \<leftarrow> (if \<not> paused w1 \<and> p \<noteq> 0 then do {
              w3 \<leftarrow> insert_or_assign reenter p (AllocationInfo_ctor sz bt) (w1\<lparr>paused := True\<rparr>);
              Some (w3\<lparr>paused := False\<rparr>)
            } else Some w1);
     Some (Lock_dtor w2)
   }"

definition untracked_free_message :: string where
  "untracked_free_message =
     ''**** ERROR: Trying to delete non logged, possibly already freed memory block!'' @ NL"

definition RemovePointer ::
  "('a::len word \<Rightarrow> IMAGEHLP_LINE option) \<Rightarrow> ('a word process \<Rightarrow> ('a word observed list \<times> 'a word process) option)
     \<Rightarrow> nat \<Rightarrow> 'a word \<Rightarrow> 'a word list \<Rightarrow> 'a word process \<Rightarrow> 'a word process option" where
  "RemovePointer resolver reenter tid p bt w = do {
     w1 \<leftarrow> Lock_ctor tid w;
     w2 \<leftarrow> (if \<not> paused w1 \<and> p \<noteq> 0 then do {
              (erased, w3) \<leftarrow> erase reenter p (w1\<lparr>paused := True\<rparr>);
              let w4 = (if erased = 0
                        then DumpToDebugOutput resolver (StackTracker_ctor bt)
                               (OutputDebugString untracked_free_message w3)
                        else w3);
              Some (w4\<lparr>paused := False\<rparr>)
            } else Some w1);
     Some (Lock_dtor w2)
   }"

definition Pause :: "nat \<Rightarrow> 'w process \<Rightarrow> 'w process option" where
  "Pause tid w = do {
     w1 \<leftarrow> Lock_ctor tid w;
     Some (Lock_dtor (w1\<lparr>paused := True\<rparr>))
   }"

definition Resume :: "nat \<Rightarrow> 'w process \<Rightarrow> 'w process option" where
  "Resume tid w = do {
     w1 \<leftarrow> Lock_ctor tid w;
     Some (Lock_dtor (w1\<lparr>paused := False\<rparr>))
   }"

subsection \<open>The hooked entry points\<close>

text \<open>\<open>ret\<close> is what \<open>malloc\<close> returns for the call.\<close>

definition operator_new ::
  "('a::len word process \<Rightarrow> ('a word observed list \<times> 'a word process) option) \<Rightarrow> nat \<Rightarrow> 'a word \<Rightarrow> 'a word \<Rightarrow> 'a word list
     \<Rightarrow> 'a word process \<Rightarrow> ('a word \<times> 'a word process) option" where
  "operator_new reenter tid sz ret bt w =
     (let (p, w1) = malloc sz ret w in do {
        w2 \<leftarrow> AddPointer reenter tid p sz bt w1;
        Some (p, w2)
      })"

definition operator_new_array ::
  "('a::len word process \<Rightarrow> ('a word observed list \<times> 'a word process) option) \<Rightarrow> nat \<Rightarrow> 'a word \<Rightarrow> 'a word \<Rightarrow> 'a word list
     \<Rightarrow> 'a word process \<Rightarrow> ('a word \<times> 'a word process) option" where
  "operator_new_array reenter tid sz ret bt w =
     (let (p, w1) = malloc sz ret w in do {
        w2 \<leftarrow> AddPointer reenter tid p sz bt w1;
        Some (p, w2)
      })"

definition operator_new_file_line ::
  "('a::len word process \<Rightarrow> ('a word observed list \<times> 'a word process) option) \<Rightarrow> nat \<Rightarrow> 'a word \<Rightarrow> string \<Rightarrow> int \<Rightarrow> 'a word \<Rightarrow> 'a word list
     \<Rightarrow> 'a word process \<Rightarrow> ('a word \<times> 'a word process) option" where
  "operator_new_file_line reenter tid sz file line ret bt w =
     (let (p, w1) = malloc sz ret w in do {
        w2 \<leftarrow> AddPointer reenter tid p sz bt w1;
        Some (p, w2)
      })"

definition operator_new_array_file_line ::
  "('a::len word process \<Rightarrow> ('a word observed list \<times> 'a word process) option) \<Rightarrow> nat \<Rightarrow> 'a word \<Rightarrow> string \<Rightarrow> int \<Rightarrow> 'a word \<Rightarrow> 'a word list
     \<Rightarrow> 'a word process \<Rightarrow> ('a word \<times> 'a word process) option" where
  "operator_new_array_file_line reenter tid sz file line ret bt w =
     (let (p, w1) = malloc sz ret w in do {
        w2 \<leftarrow> AddPointer reenter tid p sz bt w1;
        Some (p, w2)
      })"

definition operator_delete ::
  "('a::len word \<Rightarrow> IMAGEHLP_LINE option) \<Rightarrow> ('a::len word process \<Rightarrow> ('a word observed list \<times> 'a word process) option) \<Rightarrow> nat \<Rightarrow> 'a word \<Rightarrow> 'a word list
     \<Rightarrow> 'a word process \<Rightarrow> 'a word process option" where
  "operator_delete resolver reenter tid pointer bt w = do {
     w1 \<leftarrow> RemovePointer resolver reenter tid pointer bt w;
     Some (free pointer w1)
   }"

definition operator_delete_array ::
  "('a::len word \<Rightarrow> IMAGEHLP_LINE option) \<Rightarrow> ('a::len word process \<Rightarrow> ('a word observed list \<times> 'a word process) option) \<Rightarrow> nat \<Rightarrow> 'a word \<Rightarrow> 'a word list
     \<Rightarrow> 'a word process \<Rightarrow> 'a word process option" where
  "operator_delete_array resolver reenter tid pointer bt w = do {
     w1 \<leftarrow> RemovePointer resolver reenter tid pointer bt w;
     Some (free pointer w1)
   }"

definition operator_delete_file_line ::
  "('a::len word \<Rightarrow> IMAGEHLP_LINE option) \<Rightarrow> ('a::len word process \<Rightarrow> ('a word observed list \<times> 'a word process) option) \<Rightarrow> nat \<Rightarrow> 'a word \<Rightarrow> string \<Rightarrow> int \<Rightarrow> 'a word list
     \<Rightarrow> 'a word process \<Rightarrow> 'a word process option" where
  "operator_delete_file_line resolver reenter tid pointer file line bt w = do {
     w1 \<leftarrow> RemovePointer resolver reenter tid pointer bt w;
     Some (free pointer w1)
   }"

definition operator_delete_array_file_line ::
  "('a::len word \<Rightarrow> IMAGEHLP_LINE option) \<Rightarrow> ('a::len word process \<Rightarrow> ('a word observed list \<times> 'a word process) option) \<Rightarrow> nat \<Rightarrow> 'a word \<Rightarrow> string \<Rightarrow> int \<Rightarrow> 'a word list
     \<Rightarrow> 'a word process \<Rightarrow> 'a word process option" where
  "operator_delete_array_file_line resolver reenter tid pointer file line bt w = do {
     w1 \<leftarrow> RemovePointer resolver reenter tid pointer bt w;
     Some (free pointer w1)
   }"

subsection \<open>Running calls\<close>

text \<open>
  \<open>hook\<close> runs one call of thread \<open>tid\<close> through its entry point; the calls the container
  makes during a mutation of the pool come back through \<open>hooks\<close> on the same thread,
  which gives what each of them returned to the container.
\<close>

fun hook ::
  "('a::len word \<Rightarrow> IMAGEHLP_LINE option) \<Rightarrow> nat \<Rightarrow> 'a word hook_call \<Rightarrow> 'a word process
     \<Rightarrow> ('a word observed \<times> 'a word process) option"
and hooks ::
  "('a::len word \<Rightarrow> IMAGEHLP_LINE option) \<Rightarrow> nat \<Rightarrow> 'a word hook_call list \<Rightarrow> 'a word process
     \<Rightarrow> ('a word observed list \<times> 'a word process) option" where
  "hook resolver tid (New sz ret bt inner) w =
     map_option (\<lambda>(p, w'). (Allocated p, w'))
       (operator_new (hooks resolver tid inner) tid sz ret bt w)"
| "hook resolver tid (NewArray sz ret bt inner) w =
     map_option (\<lambda>(p, w'). (Allocated p, w'))
       (operator_new_array (hooks resolver tid inner) tid sz ret bt w)"
| "hook resolver tid (NewAt sz file line ret bt inner) w =
     map_option (\<lambda>(p, w'). (Allocated p, w'))
       (operator_new_file_line (hooks resolver tid inner) tid sz file line ret bt w)"
| "hook resolver tid (NewArrayAt sz file line ret bt inner) w =
     map_option (\<lambda>(p, w'). (Allocated p, w'))
       (operator_new_array_file_line (hooks resolver tid inner) tid sz file line ret bt w)"
| "hook resolver tid (Delete pointer bt inner) w =
     map_option (Pair (Freed pointer))
       (operator_delete resolver (hooks resolver tid inner) tid pointer bt w)"
| "hook resolver tid (DeleteArray pointer bt inner) w =
     map_option (Pair (Freed pointer))
       (operator_delete_array resolver (hooks resolver tid inner) tid pointer bt w)"
| "hook resolver tid (DeleteAt pointer file line bt inner) w =
     map_option (Pair (Freed pointer))
       (operator_delete_file_line resolver (hooks resolver tid inner) tid pointer file line bt w)"
| "hook resolver tid (DeleteArrayAt pointer file line bt inner) w =
     map_option (Pair (Freed pointer))
       (operator_delete_array_file_line resolver (hooks resolver tid inner) tid pointer file line bt w)"
| "hooks resolver tid [] w = Some ([], w)"
| "hooks resolver tid (c # cs) w =
     (case hook resolver tid c w of
        None \<Rightarrow> None
      | Some (seen, w1) \<Rightarrow>
          (case hooks resolver tid cs w1 of
             None \<Rightarrow> None
           | Some (rest, w2) \<Rightarrow> Some (seen # rest, w2)))"

text \<open>A sequence of calls arriving from any threads, one after the other, with what each
  caller sees.\<close>

fun run ::
  "('a::len word \<Rightarrow> IMAGEHLP_LINE option) \<Rightarrow> (nat \<times> 'a word hook_call) list \<Rightarrow> 'a word process
     \<Rightarrow> ('a word observed list \<times> 'a word process) option" where
  "run resolver [] w = Some ([], w)"
| "run resolver ((tid, c) # cs) w =
     (case hook resolver tid c w of
        None \<Rightarrow> None
      | Some (seen, w1) \<Rightarrow>
          (case run resolver cs w1 of
             None \<Rightarrow> None
           | Some (rest, w2) \<Rightarrow> Some (seen # rest, w2)))"

text \<open>The addresses returned by an allocation entry point and not yet passed to a
  deallocation entry point, over what the callers saw.\<close>

definition outstanding_step :: "'w set \<Rightarrow> 'w observed \<Rightarrow> 'w set" where
  "outstanding_step S e = (case e of Allocated p \<Rightarrow> insert p S | Freed q \<Rightarrow> S - {q})"

definition outstanding :: "'w observed list \<Rightarrow> 'w set" where
  "outstanding seen = foldl outstanding_step {} seen"

definition keys :: "'w process \<Rightarrow> 'w set" where
  "keys w = fst ` set (memTrackerPool w)"

text \<open>The critical section is free, or held by \<open>tid\<close>, and its count agrees with its owner.\<close>

definition may_enter :: "nat \<Rightarrow> 'w process \<Rightarrow> bool" where
  "may_enter tid w =
     ((OwningThread (critsec w) = None \<and> RecursionCount (critsec w) = 0) \<or>
      (OwningThread (critsec w) = Some tid \<and> 0 < RecursionCount (critsec w)))"

definition unlocked :: "'w process \<Rightarrow> bool" where
  "unlocked w = (OwningThread (critsec w) = None \<and> RecursionCount (critsec w) = 0)"

text \<open>What one call asks of the real allocator, and what its caller sees.\<close>

fun real_call :: "'w hook_call \<Rightarrow> 'w allocator_call" where
  "real_call (New sz ret bt inner) = Malloc sz ret"
| "real_call (NewArray sz ret bt inner) = Malloc sz ret"
| "real_call (NewAt sz file line ret bt inner) = Malloc sz ret"
| "real_call (NewArrayAt sz file line ret bt inner) = Malloc sz ret"
| "real_call (Delete pointer bt inner) = Free pointer"
| "real_call (DeleteArray pointer bt inner) = Free pointer"
| "real_call (DeleteAt pointer file line bt inner) = Free pointer"
| "real_call (DeleteArrayAt pointer file line bt inner) = Free pointer"

fun visible :: "'w hook_call \<Rightarrow> 'w observed" where
  "visible (New sz ret bt inner) = Allocated ret"
| "visible (NewArray sz ret bt inner) = Allocated ret"
| "visible (NewAt sz file line ret bt inner) = Allocated ret"
| "visible (NewArrayAt sz file line ret bt inner) = Allocated ret"
| "visible (Delete pointer bt inner) = Freed pointer"
| "visible (DeleteArray pointer bt inner) = Freed pointer"
| "visible (DeleteAt pointer file line bt inner) = Freed pointer"
| "visible (DeleteArrayAt pointer file line bt inner) = Freed pointer"

text \<open>The calls the container makes during a call, and whether each allocation among
  them gets a pointer that is not null from the real allocator.\<close>

fun container_calls :: "'w hook_call \<Rightarrow> 'w hook_call list" where
  "container_calls (New sz ret bt inner) = inner"
| "container_calls (NewArray sz ret bt inner) = inner"
| "container_calls (NewAt sz file line ret bt inner) = inner"
| "container_calls (NewArrayAt sz file line ret bt inner) = inner"
| "container_calls (Delete pointer bt inner) = inner"
| "container_calls (DeleteArray pointer bt inner) = inner"
| "container_calls (DeleteAt pointer file line bt inner) = inner"
| "container_calls (DeleteArrayAt pointer file line bt inner) = inner"

definition container_served :: "'a::len word hook_call \<Rightarrow> bool" where
  "container_served c = (Allocated 0 \<notin> set (map visible (container_calls c)))"

text \<open>The strings one \<open>DumpToDebugOutput\<close> passes to the sink for a stack array: a line
  for each entry that is not null, in order, then an empty line.\<close>

definition stack_lines ::
  "('a::len word \<Rightarrow> IMAGEHLP_LINE option) \<Rightarrow> 'a word list \<Rightarrow> string list" where
  "stack_lines resolver stk = map (frame_line resolver) (filter (\<lambda>a. a \<noteq> 0) stk) @ [NL]"

text \<open>Consecutive calls of \<open>Pause\<close>, one for each thread identifier of the list.\<close>

fun pauses :: "nat list \<Rightarrow> 'w process \<Rightarrow> 'w process option" where
  "pauses [] w = Some w"
| "pauses (tid # tids) w = (case Pause tid w of None \<Rightarrow> None | Some w1 \<Rightarrow> pauses tids w1)"

subsection \<open>The leak report, line by line\<close>

text \<open>The strings the destructor passes to the sink.\<close>

definition report_header :: string where
  "report_header = NL @ ''--- Memleaks start here ---'' @ NL @ NL"

definition leak_line :: "'a::len word \<Rightarrow> string" where
  "leak_line sz = sntprintf_s 1023 (''Leak: '' @ fmt_zu sz @ '' bytes'' @ NL)"

definition total_line :: "'a::len word \<Rightarrow> string" where
  "total_line n = sntprintf_s 1023 (TAB @ ''Total bytes leaked: '' @ fmt_zu n @ NL @ NL)"

definition entry_lines ::
  "('a::len word \<Rightarrow> IMAGEHLP_LINE option) \<Rightarrow> 'a word \<times> 'a word AllocationInfo \<Rightarrow> string list" where
  "entry_lines resolver entry =
     leak_line (size_bytes (snd entry)) # stack_lines resolver (stack (snd entry))"

text \<open>A symbolication service that resolves no address.\<close>

definition no_symbols :: "'a::len word \<Rightarrow> IMAGEHLP_LINE option" where
  "no_symbols a = None"

text \<open>
  The report as the External Interfaces section of the specification writes it, for the
  records in the order given: the header line and an empty line; for each record its
  \<open>Leak:\<close> line and one line for each frame, indented by eight spaces; the total,
  indented by eight spaces, and an empty line. With no record, the one line
  \<open>No memleaks found.\<close>
\<close>

definition spec_indent :: string where
  "spec_indent = ''        ''"

definition spec_frame_line :: "('a::len word \<Rightarrow> IMAGEHLP_LINE option) \<Rightarrow> 'a word \<Rightarrow> string" where
  "spec_frame_line resolver a =
     (case resolver a of
        Some line \<Rightarrow> spec_indent @ FileName line @ '' ('' @ fmt_d (LineNumber line) @ '')'' @ NL
      | None \<Rightarrow> spec_indent @ ''Unresolved address: '' @ fmt_p a @ NL)"

definition spec_entry_text ::
  "('a::len word \<Rightarrow> IMAGEHLP_LINE option) \<Rightarrow> 'a word \<times> 'a word AllocationInfo \<Rightarrow> string" where
  "spec_entry_text resolver entry =
     ''Leak: '' @ fmt_zu (size_bytes (snd entry)) @ '' bytes'' @ NL @
     concat (map (spec_frame_line resolver) (filter (\<lambda>a. a \<noteq> 0) (stack (snd entry))))"

definition spec_report_text ::
  "('a::len word \<Rightarrow> IMAGEHLP_LINE option) \<Rightarrow> ('a word \<times> 'a word AllocationInfo) list \<Rightarrow> string" where
  "spec_report_text resolver records =
     (if records = [] then ''No memleaks found.'' @ NL
      else ''--- Memleaks start here ---'' @ NL @ NL @
           concat (map (spec_entry_text resolver) records) @
           spec_indent @ ''Total bytes leaked: '' @
           dec_nat (sum_list (map (\<lambda>entry. unat (size_bytes (snd entry))) records)) @ NL @ NL)"

section \<open>Properties\<close>

subsection \<open>The critical section\<close>

lemma Lock_ctor_may_enter:
  assumes "may_enter tid w"
  shows "\<exists>cs. Lock_ctor tid w = Some (w\<lparr>critsec := cs\<rparr>) \<and> LeaveCriticalSection cs = critsec w
           \<and> OwningThread cs = Some tid \<and> 0 < RecursionCount cs"
  using assms
  by (auto simp: may_enter_def Lock_ctor_def EnterCriticalSection_def LeaveCriticalSection_def)

lemma unlocked_may_enter: "unlocked w \<Longrightarrow> may_enter tid w"
  by (simp add: unlocked_def may_enter_def)

lemma Lock_ctor_blocks:
  assumes "OwningThread (critsec w) = Some owner" "owner \<noteq> tid"
  shows "Lock_ctor tid w = None"
  using assms by (simp add: Lock_ctor_def EnterCriticalSection_def)

subsection \<open>Calls that find tracking suppressed\<close>

lemma AddPointer_skipped:
  assumes "may_enter tid w" "paused w \<or> p = 0"
  shows "AddPointer reenter tid p sz bt w = Some w"
proof -
  from Lock_ctor_may_enter [OF assms(1)] obtain cs where
    cs: "Lock_ctor tid w = Some (w\<lparr>critsec := cs\<rparr>)" "LeaveCriticalSection cs = critsec w"
    by blast
  show ?thesis using assms(2) cs by (auto simp: AddPointer_def Lock_dtor_def)
qed

lemma RemovePointer_skipped:
  assumes "may_enter tid w" "paused w \<or> p = 0"
  shows "RemovePointer resolver reenter tid p bt w = Some w"
proof -
  from Lock_ctor_may_enter [OF assms(1)] obtain cs where
    cs: "Lock_ctor tid w = Some (w\<lparr>critsec := cs\<rparr>)" "LeaveCriticalSection cs = critsec w"
    by blast
  show ?thesis using assms(2) cs by (auto simp: RemovePointer_def Lock_dtor_def)
qed

lemmas entry_point_defs =
  operator_new_def operator_new_array_def operator_new_file_line_def
  operator_new_array_file_line_def operator_delete_def operator_delete_array_def
  operator_delete_file_line_def operator_delete_array_file_line_def

lemma hook_paused:
  assumes "may_enter tid w" "paused w"
  shows "hook resolver tid c w =
           Some (visible c, w\<lparr>allocator_calls := allocator_calls w @ [real_call c]\<rparr>)"
proof -
  have m: "\<And>sz ret. may_enter tid (w\<lparr>allocator_calls := allocator_calls w @ [Malloc sz ret]\<rparr>)"
    using assms(1) by (simp add: may_enter_def)
  show ?thesis
    using assms
    by (cases c)
       (simp_all add: entry_point_defs malloc_def free_def AddPointer_skipped [OF m]
          RemovePointer_skipped)
qed

lemma hooks_paused:
  assumes "may_enter tid w" "paused w"
  shows "hooks resolver tid cs w =
           Some (map visible cs,
                 w\<lparr>allocator_calls := allocator_calls w @ map real_call cs\<rparr>)"
  using assms
proof (induction cs arbitrary: w)
  case Nil
  then show ?case by simp
next
  case (Cons c cs)
  let ?w1 = "w\<lparr>allocator_calls := allocator_calls w @ [real_call c]\<rparr>"
  have "may_enter tid ?w1" "paused ?w1"
    using Cons.prems by (simp_all add: may_enter_def)
  from Cons.IH [OF this] hook_paused [OF Cons.prems, of resolver c]
  show ?case by simp
qed

subsection \<open>The stack dump\<close>

lemma foldl_output:
  "foldl (\<lambda>w x. if P x then OutputDebugString (f x) w else w) w xs =
     w\<lparr>debug_output := debug_output w @ map f (filter P xs)\<rparr>"
  by (induction xs arbitrary: w) (simp_all add: OutputDebugString_def)

lemma nth_frames:
  "map (\<lambda>x. f (stk ! x)) (filter (\<lambda>x. P (stk ! x)) [0..<length stk]) = map f (filter P stk)"
proof -
  have "map f (filter P (map (\<lambda>x. stk ! x) [0..<length stk])) = map f (filter P stk)"
    by (simp only: map_nth)
  then show ?thesis by (simp add: filter_map comp_def)
qed

lemma DumpToDebugOutput_eq:
  assumes "length stk = STACK_TRACE_DEPTH"
  shows "DumpToDebugOutput resolver stk w =
           w\<lparr>dbgInitialized := True,
             debug_output := debug_output w @ stack_lines resolver stk\<rparr>"
proof -
  let ?step = "\<lambda>w x. if stk ! x \<noteq> 0
                      then OutputDebugString (frame_line resolver (stk ! x)) w else w"
  have "foldl ?step (InitializeSym w) [0..<length stk] =
        (InitializeSym w)\<lparr>debug_output := debug_output (InitializeSym w) @
           map (\<lambda>x. frame_line resolver (stk ! x)) (filter (\<lambda>x. stk ! x \<noteq> 0) [0..<length stk])\<rparr>"
    by (rule foldl_output)
  then have "foldl ?step (InitializeSym w) [0..<length stk] =
        (InitializeSym w)\<lparr>debug_output := debug_output (InitializeSym w) @
           map (frame_line resolver) (filter (\<lambda>a. a \<noteq> 0) stk)\<rparr>"
    using nth_frames [of "frame_line resolver" stk "\<lambda>a. a \<noteq> 0"] by simp
  then show ?thesis
    unfolding assms
    by (simp add: DumpToDebugOutput_def stack_lines_def InitializeSym_def OutputDebugString_def)
qed

lemma length_StackTracker_ctor: "length (StackTracker_ctor bt) = STACK_TRACE_DEPTH"
  by (simp add: StackTracker_ctor_def)

lemma stack_lines_captured:
  "stack_lines resolver (StackTracker_ctor bt) =
     map (frame_line resolver) (filter (\<lambda>a. a \<noteq> 0) (take STACK_TRACE_DEPTH bt)) @ [NL]"
  by (simp add: stack_lines_def StackTracker_ctor_def)

subsection \<open>Calls that find tracking active\<close>

lemma AddPointer_active:
  assumes "may_enter tid w" "\<not> paused w" "p \<noteq> 0"
    and "p \<in> keys w \<or> Allocated 0 \<notin> set (map visible inner)"
  shows "AddPointer (hooks resolver tid inner) tid p sz bt w =
           Some (w\<lparr>memTrackerPool := AList.update p (AllocationInfo_ctor sz bt) (memTrackerPool w),
                   allocator_calls :=
                     allocator_calls w @ (if p \<in> keys w then [] else map real_call inner)\<rparr>)"
proof -
  from Lock_ctor_may_enter [OF assms(1)] obtain cs where
    cs: "Lock_ctor tid w = Some (w\<lparr>critsec := cs\<rparr>)" "LeaveCriticalSection cs = critsec w"
        "OwningThread cs = Some tid" "0 < RecursionCount cs"
    by blast
  let ?w1 = "w\<lparr>critsec := cs, paused := True\<rparr>"
  have "may_enter tid ?w1" "paused ?w1"
    using cs by (simp_all add: may_enter_def)
  from hooks_paused [OF this, of resolver inner] show ?thesis
    using assms(2,3,4) cs(1,2)
    by (auto simp: AddPointer_def insert_or_assign_def Lock_dtor_def keys_def)
qed

lemma AddPointer_dies:
  assumes "may_enter tid w" "\<not> paused w" "p \<noteq> 0"
    and "p \<notin> keys w" "Allocated 0 \<in> set (map visible inner)"
  shows "AddPointer (hooks resolver tid inner) tid p sz bt w = None"
proof -
  from Lock_ctor_may_enter [OF assms(1)] obtain cs where
    cs: "Lock_ctor tid w = Some (w\<lparr>critsec := cs\<rparr>)" "LeaveCriticalSection cs = critsec w"
        "OwningThread cs = Some tid" "0 < RecursionCount cs"
    by blast
  let ?w1 = "w\<lparr>critsec := cs, paused := True\<rparr>"
  have "may_enter tid ?w1" "paused ?w1"
    using cs by (simp_all add: may_enter_def)
  from hooks_paused [OF this, of resolver inner] show ?thesis
    using assms(2,3,4,5) cs(1,2)
    by (auto simp: AddPointer_def insert_or_assign_def Lock_dtor_def keys_def)
qed

lemma erased_zero: "(filter (\<lambda>entry. fst entry = p) al = []) = (p \<notin> fst ` set al)"
  by (auto simp: filter_empty_conv)

lemma RemovePointer_active:
  assumes "may_enter tid w" "\<not> paused w" "p \<noteq> 0"
  shows "RemovePointer resolver (hooks resolver tid inner) tid p bt w =
           Some (if p \<in> keys w
                 then w\<lparr>memTrackerPool := AList.delete p (memTrackerPool w),
                        allocator_calls := allocator_calls w @ map real_call inner\<rparr>
                 else w\<lparr>dbgInitialized := True,
                        debug_output := debug_output w @
                          untracked_free_message # stack_lines resolver (StackTracker_ctor bt),
                        allocator_calls := allocator_calls w @ map real_call inner\<rparr>)"
proof -
  from Lock_ctor_may_enter [OF assms(1)] obtain cs where
    cs: "Lock_ctor tid w = Some (w\<lparr>critsec := cs\<rparr>)" "LeaveCriticalSection cs = critsec w"
        "OwningThread cs = Some tid" "0 < RecursionCount cs"
    by blast
  let ?w1 = "w\<lparr>critsec := cs, paused := True, memTrackerPool := AList.delete p (memTrackerPool w)\<rparr>"
  have "may_enter tid ?w1" "paused ?w1"
    using cs by (simp_all add: may_enter_def)
  from hooks_paused [OF this, of resolver inner] show ?thesis
    using assms(2,3) cs(1,2)
    by (simp add: RemovePointer_def erase_def Lock_dtor_def erased_zero keys_def
          DumpToDebugOutput_eq [OF length_StackTracker_ctor] OutputDebugString_def)
qed

subsection \<open>Pause and Resume\<close>

lemma Pause_unlocked: "unlocked w \<Longrightarrow> Pause tid w = Some (w\<lparr>paused := True\<rparr>)"
  by (cases w) (simp add: unlocked_def Pause_def Lock_ctor_def Lock_dtor_def
      EnterCriticalSection_def LeaveCriticalSection_def)

lemma Resume_unlocked: "unlocked w \<Longrightarrow> Resume tid w = Some (w\<lparr>paused := False\<rparr>)"
  by (cases w) (simp add: unlocked_def Resume_def Lock_ctor_def Lock_dtor_def
      EnterCriticalSection_def LeaveCriticalSection_def)

lemma pauses_unlocked:
  "unlocked w \<Longrightarrow> pauses tids w = Some (if tids = [] then w else w\<lparr>paused := True\<rparr>)"
proof (induction tids arbitrary: w)
  case Nil
  then show ?case by simp
next
  case (Cons tid tids)
  have u: "unlocked (w\<lparr>paused := True\<rparr>)" using Cons.prems by (simp add: unlocked_def)
  show ?case
    using Cons.IH [OF u] by (simp add: Pause_unlocked [OF Cons.prems])
qed

text \<open>
  Claim C10. \<open>Pause\<close> and \<open>Resume\<close> assign the flag and keep no count. Calling \<open>Pause\<close>
  twice in a row is the same as calling it once, and so for \<open>Resume\<close>, in every state.
  When no call is inside the tracker (the critical section is free), \<open>Pause\<close> is the
  assignment \<open>paused := true\<close> and \<open>Resume\<close> the assignment \<open>paused := false\<close> and
  nothing else, and one \<open>Resume\<close> after any number of consecutive \<open>Pause\<close> calls, from
  any threads, leaves the state that one \<open>Resume\<close> alone leaves: tracking active.
\<close>

theorem Pause_Resume_idempotent:
  "(Pause tid w \<bind> Pause tid) = Pause tid w \<and>
   (Resume tid w \<bind> Resume tid) = Resume tid w \<and>
   (unlocked w \<longrightarrow>
      Pause tid w = Some (w\<lparr>paused := True\<rparr>) \<and>
      Resume tid w = Some (w\<lparr>paused := False\<rparr>) \<and>
      (pauses tids w \<bind> Resume tid') = Some (w\<lparr>paused := False\<rparr>))"
proof (intro conjI impI)
  show "(Pause tid w \<bind> Pause tid) = Pause tid w"
    by (cases w)
       (auto simp: Pause_def Lock_ctor_def Lock_dtor_def EnterCriticalSection_def
          LeaveCriticalSection_def split: option.splits)
  show "(Resume tid w \<bind> Resume tid) = Resume tid w"
    by (cases w)
       (auto simp: Resume_def Lock_ctor_def Lock_dtor_def EnterCriticalSection_def
          LeaveCriticalSection_def split: option.splits)
next
  assume u: "unlocked w"
  show "Pause tid w = Some (w\<lparr>paused := True\<rparr>)" by (rule Pause_unlocked [OF u])
  show "Resume tid w = Some (w\<lparr>paused := False\<rparr>)" by (rule Resume_unlocked [OF u])
  have u': "unlocked (w\<lparr>paused := True\<rparr>)" using u by (simp add: unlocked_def)
  show "(pauses tids w \<bind> Resume tid') = Some (w\<lparr>paused := False\<rparr>)"
    by (simp add: pauses_unlocked [OF u] Resume_unlocked [OF u] Resume_unlocked [OF u'])
qed

theorem Pause_Resume_idempotent_witness:
  "unlocked (MemTracker_ctor :: 64 word process) \<and>
   (pauses [1, 2, 1] (MemTracker_ctor :: 64 word process) \<bind> Resume 3) =
     Some (MemTracker_ctor\<lparr>paused := False\<rparr>) \<and>
   \<not> paused (MemTracker_ctor\<lparr>paused := False\<rparr> :: 64 word process)"
proof -
  have u: "unlocked (MemTracker_ctor :: 64 word process)"
    by (simp add: unlocked_def MemTracker_ctor_def)
  show ?thesis
    using u Pause_Resume_idempotent [of 1 "MemTracker_ctor :: 64 word process" "[1, 2, 1]" 3]
    by (simp del: pauses.simps)
qed

subsection \<open>The entry points\<close>

text \<open>
  Claim C9. The four allocation entry points are the same function of the requested
  size, and the four deallocation entry points the same function of the pointer: the
  array forms equal the scalar forms, and the forms with a file and a line equal them
  for every file and every line. The result holds the returned pointer and the whole
  state after the call: the pool, the debug output and the calls made to the real
  allocator.
\<close>

theorem entry_points_equivalent:
  "operator_new_array reenter tid sz ret bt w = operator_new reenter tid sz ret bt w \<and>
   operator_new_file_line reenter tid sz file line ret bt w = operator_new reenter tid sz ret bt w \<and>
   operator_new_array_file_line reenter tid sz file line ret bt w = operator_new reenter tid sz ret bt w \<and>
   operator_delete_array resolver reenter tid pointer bt w =
     operator_delete resolver reenter tid pointer bt w \<and>
   operator_delete_file_line resolver reenter tid pointer file line bt w =
     operator_delete resolver reenter tid pointer bt w \<and>
   operator_delete_array_file_line resolver reenter tid pointer file line bt w =
     operator_delete resolver reenter tid pointer bt w"
  by (simp add: entry_point_defs)

lemma may_enter_allocator_calls [simp]:
  "may_enter tid (w\<lparr>allocator_calls := cs\<rparr>) = may_enter tid w"
  by (simp add: may_enter_def)

lemma keys_allocator_calls [simp]: "keys (w\<lparr>allocator_calls := cs\<rparr>) = keys w"
  by (simp add: keys_def)

lemma MemTracker_ctor_fields:
  "critsec (MemTracker_ctor :: 'w process) = \<lparr>OwningThread = None, RecursionCount = 0\<rparr>"
  "paused (MemTracker_ctor :: 'w process) = False"
  "memTrackerPool (MemTracker_ctor :: 'w process) = []"
  "dbgInitialized (MemTracker_ctor :: 'w process) = False"
  "debug_output (MemTracker_ctor :: 'w process) = []"
  "allocator_calls (MemTracker_ctor :: 'w process) = []"
  by (simp_all add: MemTracker_ctor_def)

lemma MemTracker_ctor_ready:
  "unlocked (MemTracker_ctor :: 'w process)" "may_enter tid (MemTracker_ctor :: 'w process)"
  "keys (MemTracker_ctor :: 'w process) = {}"
  by (simp_all add: unlocked_def may_enter_def keys_def MemTracker_ctor_fields)

lemma operator_new_effect:
  assumes "may_enter tid w"
  shows "operator_new (hooks resolver tid inner) tid sz ret bt w =
           (if \<not> paused w \<and> ret \<noteq> 0 \<and> ret \<notin> keys w \<and> Allocated 0 \<in> set (map visible inner)
            then None
            else Some (ret,
              if paused w \<or> ret = 0
              then w\<lparr>allocator_calls := allocator_calls w @ [Malloc sz ret]\<rparr>
              else w\<lparr>memTrackerPool :=
                       AList.update ret (AllocationInfo_ctor sz bt) (memTrackerPool w),
                     allocator_calls :=
                       allocator_calls w @ Malloc sz ret #
                         (if ret \<in> keys w then [] else map real_call inner)\<rparr>))"
proof -
  let ?w1 = "w\<lparr>allocator_calls := allocator_calls w @ [Malloc sz ret]\<rparr>"
  have m: "may_enter tid ?w1" using assms by simp
  consider (skip) "paused w \<or> ret = 0"
    | (dies) "\<not> paused w" "ret \<noteq> 0" "ret \<notin> keys w" "Allocated 0 \<in> set (map visible inner)"
    | (adds) "\<not> paused w" "ret \<noteq> 0" "ret \<in> keys w \<or> Allocated 0 \<notin> set (map visible inner)"
    by blast
  then show ?thesis
  proof cases
    case skip
    have "AddPointer (hooks resolver tid inner) tid ret sz bt ?w1 = Some ?w1"
      using skip m by (intro AddPointer_skipped) auto
    with skip show ?thesis by (auto simp: operator_new_def malloc_def)
  next
    case dies
    have "AddPointer (hooks resolver tid inner) tid ret sz bt ?w1 = None"
      using dies m by (intro AddPointer_dies) auto
    with dies show ?thesis by (simp add: operator_new_def malloc_def)
  next
    case adds
    have "\<not> paused ?w1" "ret \<in> keys ?w1 \<or> Allocated 0 \<notin> set (map visible inner)"
      using adds by auto
    from AddPointer_active [OF m this(1) adds(2) this(2), of resolver sz bt] adds
    show ?thesis by (auto simp: operator_new_def malloc_def)
  qed
qed

lemma operator_delete_effect:
  assumes "may_enter tid w"
  shows "operator_delete resolver (hooks resolver tid inner) tid p bt w =
           Some (if paused w \<or> p = 0
                 then w\<lparr>allocator_calls := allocator_calls w @ [Free p]\<rparr>
                 else if p \<in> keys w
                 then w\<lparr>memTrackerPool := AList.delete p (memTrackerPool w),
                        allocator_calls := allocator_calls w @ map real_call inner @ [Free p]\<rparr>
                 else w\<lparr>dbgInitialized := True,
                        debug_output := debug_output w @
                          untracked_free_message # stack_lines resolver (StackTracker_ctor bt),
                        allocator_calls := allocator_calls w @ map real_call inner @ [Free p]\<rparr>)"
proof (cases "paused w \<or> p = 0")
  case True
  have "RemovePointer resolver (hooks resolver tid inner) tid p bt w = Some w"
    using True assms by (intro RemovePointer_skipped) auto
  with True show ?thesis by (auto simp: operator_delete_def free_def)
next
  case False
  have "may_enter tid w" "\<not> paused w" "p \<noteq> 0" using False assms by auto
  from RemovePointer_active [OF this, of resolver inner bt] False
  show ?thesis by (simp add: operator_delete_def free_def)
qed

lemma operator_new_forms:
  "operator_new_array = operator_new"
  "operator_new_file_line reenter tid sz file line = operator_new reenter tid sz"
  "operator_new_array_file_line reenter tid sz file line = operator_new reenter tid sz"
  by (intro ext, simp add: entry_point_defs)+

lemma operator_delete_forms:
  "operator_delete_array = operator_delete"
  "operator_delete_file_line resolver reenter tid p file line = operator_delete resolver reenter tid p"
  "operator_delete_array_file_line resolver reenter tid p file line =
     operator_delete resolver reenter tid p"
  by (intro ext, simp add: entry_point_defs)+

text \<open>
  Claim C8, as stated: every allocation entry point returns the pointer of the real
  allocator and never alters the allocator's failure behaviour. Here \<open>malloc\<close> gives
  \<open>0x1000\<close> for the 64 bytes requested, the call has to insert a new key, and \<open>malloc\<close>
  gives null for the node the container asks for during the insertion: the entry point
  does not return.
\<close>

theorem allocation_entry_point_counterexample:
  "visible (New 64 0x1000 [] [New 104 0 [] []] :: 64 word hook_call) = Allocated 0x1000 \<and>
   hook no_symbols 1 (New 64 0x1000 [] [New 104 0 [] []]) (MemTracker_ctor :: 64 word process) = None"
proof -
  have m: "may_enter 1 (MemTracker_ctor :: 64 word process)"
    by (simp add: MemTracker_ctor_ready)
  show ?thesis
    using operator_new_effect [OF m, where resolver = no_symbols and inner = "[New 104 0 [] []]"
        and sz = 64 and ret = "0x1000" and bt = "[]"]
    by (simp add: MemTracker_ctor_fields MemTracker_ctor_ready)
qed

text \<open>
  Claim C8, amended. Take a state that lets the calling thread into the tracker, and a call
  of one of the four allocation entry points during which every allocation the container
  makes for its own storage gets a pointer that is not null (a call that finds tracking
  suppressed, gets null for its request, or gets an address that is a key of the pool
  already, makes the container allocate nothing). The entry point asks \<open>malloc\<close> once,
  first, for exactly the requested size \<open>sz\<close>, and returns what \<open>malloc\<close> gave,
  \<open>ret\<close>, null included. When \<open>ret\<close> is null the state changes by the record of that
  \<open>malloc\<close> call alone: the pool is as it was. \<open>AddPointer\<close> with a null address
  returns with the state unchanged.
\<close>

theorem allocation_returns_malloc_result:
  assumes "may_enter tid w"
    and "c \<in> {New sz ret bt inner, NewArray sz ret bt inner,
               NewAt sz file line ret bt inner, NewArrayAt sz file line ret bt inner}"
    and "paused w \<or> ret = 0 \<or> ret \<in> keys w \<or> Allocated 0 \<notin> set (map visible inner)"
  shows "hook resolver tid c w =
           Some (Allocated ret,
             if paused w \<or> ret = 0
             then w\<lparr>allocator_calls := allocator_calls w @ [Malloc sz ret]\<rparr>
             else w\<lparr>memTrackerPool :=
                      AList.update ret (AllocationInfo_ctor sz bt) (memTrackerPool w),
                    allocator_calls :=
                      allocator_calls w @ Malloc sz ret #
                        (if ret \<in> keys w then [] else map real_call inner)\<rparr>)
         \<and> AddPointer reenter tid 0 sz bt w = Some w"
proof
  show "AddPointer reenter tid 0 sz bt w = Some w"
    using assms(1) by (simp add: AddPointer_skipped)
  have "operator_new (hooks resolver tid inner) tid sz ret bt w =
           Some (ret,
             if paused w \<or> ret = 0
             then w\<lparr>allocator_calls := allocator_calls w @ [Malloc sz ret]\<rparr>
             else w\<lparr>memTrackerPool :=
                      AList.update ret (AllocationInfo_ctor sz bt) (memTrackerPool w),
                    allocator_calls :=
                      allocator_calls w @ Malloc sz ret #
                        (if ret \<in> keys w then [] else map real_call inner)\<rparr>)"
    using assms(3) operator_new_effect [OF assms(1), of resolver inner sz ret bt]
    by (simp split: if_splits)
  then show "hook resolver tid c w =
           Some (Allocated ret,
             if paused w \<or> ret = 0
             then w\<lparr>allocator_calls := allocator_calls w @ [Malloc sz ret]\<rparr>
             else w\<lparr>memTrackerPool :=
                      AList.update ret (AllocationInfo_ctor sz bt) (memTrackerPool w),
                    allocator_calls :=
                      allocator_calls w @ Malloc sz ret #
                        (if ret \<in> keys w then [] else map real_call inner)\<rparr>)"
    using assms(2) by (auto simp: operator_new_forms)
qed

theorem allocation_returns_malloc_result_witness:
  "may_enter 1 (MemTracker_ctor :: 64 word process) \<and>
   hook no_symbols 1 (NewArray 16 0 [0x401000] [New 104 0 [] []]) (MemTracker_ctor :: 64 word process) =
     Some (Allocated 0, MemTracker_ctor\<lparr>allocator_calls := [Malloc 16 0]\<rparr>) \<and>
   hook no_symbols 1 (NewAt 16 ''a.cpp'' 7 0x1000 [] [New 104 0x2000 [] []])
       (MemTracker_ctor :: 64 word process) =
     Some (Allocated 0x1000,
           MemTracker_ctor\<lparr>memTrackerPool := [(0x1000, AllocationInfo_ctor 16 [])],
             allocator_calls := [Malloc 16 0x1000, Malloc 104 0x2000]\<rparr>)"
proof -
  have m: "may_enter 1 (MemTracker_ctor :: 64 word process)"
    by (simp add: MemTracker_ctor_ready)
  have mem1: "NewArray 16 0 [0x401000] [New 104 0 [] []] \<in>
      {New 16 0 [0x401000] [New 104 0 [] []], NewArray 16 0 [0x401000] [New 104 0 [] []],
       NewAt 16 [] 0 0 [0x401000] [New 104 0 [] []],
       NewArrayAt 16 [] 0 0 [0x401000] [New 104 0 [] []] :: 64 word hook_call}"
    by simp
  have mem2: "NewAt 16 ''a.cpp'' 7 0x1000 [] [New 104 0x2000 [] []] \<in>
      {New 16 0x1000 [] [New 104 0x2000 [] []], NewArray 16 0x1000 [] [New 104 0x2000 [] []],
       NewAt 16 ''a.cpp'' 7 0x1000 [] [New 104 0x2000 [] []],
       NewArrayAt 16 ''a.cpp'' 7 0x1000 [] [New 104 0x2000 [] []] :: 64 word hook_call}"
    by simp
  have served1: "paused (MemTracker_ctor :: 64 word process) \<or> (0 :: 64 word) = 0 \<or>
      0 \<in> keys (MemTracker_ctor :: 64 word process) \<or>
      Allocated 0 \<notin> set (map visible [New 104 0 [] [] :: 64 word hook_call])"
    by simp
  have served2: "paused (MemTracker_ctor :: 64 word process) \<or> (0x1000 :: 64 word) = 0 \<or>
      0x1000 \<in> keys (MemTracker_ctor :: 64 word process) \<or>
      Allocated 0 \<notin> set (map visible [New 104 0x2000 [] [] :: 64 word hook_call])"
    by simp
  have 1: "hook no_symbols 1 (NewArray 16 0 [0x401000] [New 104 0 [] []])
             (MemTracker_ctor :: 64 word process) =
           Some (Allocated 0, MemTracker_ctor\<lparr>allocator_calls := [Malloc 16 0]\<rparr>)"
    using allocation_returns_malloc_result [OF m mem1 served1, where resolver = no_symbols]
    by (simp add: MemTracker_ctor_fields)
  have 2: "hook no_symbols 1 (NewAt 16 ''a.cpp'' 7 0x1000 [] [New 104 0x2000 [] []])
             (MemTracker_ctor :: 64 word process) =
           Some (Allocated 0x1000,
             MemTracker_ctor\<lparr>memTrackerPool := [(0x1000, AllocationInfo_ctor 16 [])],
               allocator_calls := [Malloc 16 0x1000, Malloc 104 0x2000]\<rparr>)"
    using allocation_returns_malloc_result [OF m mem2 served2, where resolver = no_symbols]
    by (simp add: MemTracker_ctor_fields MemTracker_ctor_ready)
  from m 1 2 show ?thesis by blast
qed

subsection \<open>Freeing an address the pool does not hold\<close>

text \<open>
  Claim C4. A deallocation of a non-null address that is not a key of the pool, while
  tracking is active: \<open>RemovePointer\<close> passes to the sink the error line, then one line
  for each frame of the stack captured in this call (at most \<open>STACK_TRACE_DEPTH\<close>
  frames, null entries skipped) and the empty line that ends every stack dump, and
  nothing else; the pool, the flag and the critical section are as before. The same
  holds of each of the four deallocation entry points, which then free the pointer. The
  error line is the text of the claim after four asterisks and a space, with a newline.
\<close>

theorem untracked_free_diagnostic:
  assumes "may_enter tid w" "\<not> paused w" "p \<noteq> 0" "p \<notin> keys w"
    and "c \<in> {Delete p bt inner, DeleteArray p bt inner,
               DeleteAt p file line bt inner, DeleteArrayAt p file line bt inner}"
  shows "RemovePointer resolver (hooks resolver tid inner) tid p bt w =
           Some (w\<lparr>dbgInitialized := True,
                   debug_output := debug_output w @
                     untracked_free_message #
                     map (frame_line resolver) (filter (\<lambda>a. a \<noteq> 0) (take STACK_TRACE_DEPTH bt)) @ [NL],
                   allocator_calls := allocator_calls w @ map real_call inner\<rparr>)
         \<and> hook resolver tid c w =
           Some (Freed p,
                 w\<lparr>dbgInitialized := True,
                   debug_output := debug_output w @
                     untracked_free_message #
                     map (frame_line resolver) (filter (\<lambda>a. a \<noteq> 0) (take STACK_TRACE_DEPTH bt)) @ [NL],
                   allocator_calls := allocator_calls w @ map real_call inner @ [Free p]\<rparr>)
         \<and> untracked_free_message =
             ''**** '' @ ''ERROR: Trying to delete non logged, possibly already freed memory block!'' @ NL"
proof (intro conjI)
  show "RemovePointer resolver (hooks resolver tid inner) tid p bt w =
           Some (w\<lparr>dbgInitialized := True,
                   debug_output := debug_output w @
                     untracked_free_message #
                     map (frame_line resolver) (filter (\<lambda>a. a \<noteq> 0) (take STACK_TRACE_DEPTH bt)) @ [NL],
                   allocator_calls := allocator_calls w @ map real_call inner\<rparr>)"
    using RemovePointer_active [OF assms(1-3), of resolver inner bt] assms(4)
    by (simp add: stack_lines_captured)
  show "hook resolver tid c w =
           Some (Freed p,
                 w\<lparr>dbgInitialized := True,
                   debug_output := debug_output w @
                     untracked_free_message #
                     map (frame_line resolver) (filter (\<lambda>a. a \<noteq> 0) (take STACK_TRACE_DEPTH bt)) @ [NL],
                   allocator_calls := allocator_calls w @ map real_call inner @ [Free p]\<rparr>)"
    using assms(2-5) operator_delete_effect [OF assms(1), of resolver inner p bt]
    by (auto simp: operator_delete_forms stack_lines_captured)
  show "untracked_free_message =
             ''**** '' @ ''ERROR: Trying to delete non logged, possibly already freed memory block!'' @ NL"
    by (simp add: untracked_free_message_def)
qed

theorem untracked_free_diagnostic_witness:
  "may_enter 1 (MemTracker_ctor :: 64 word process) \<and>
   \<not> paused (MemTracker_ctor :: 64 word process) \<and>
   (0x1000 :: 64 word) \<noteq> 0 \<and> 0x1000 \<notin> keys (MemTracker_ctor :: 64 word process) \<and>
   hook (\<lambda>a. None) 1 (Delete 0x1000 [0x401000, 0] []) (MemTracker_ctor :: 64 word process) =
     Some (Freed 0x1000,
           MemTracker_ctor\<lparr>dbgInitialized := True,
             debug_output :=
               [''**** ERROR: Trying to delete non logged, possibly already freed memory block!'' @ NL,
                TAB @ TAB @ ''Unresolved address: 0000000000401000'' @ NL, NL],
             allocator_calls := [Free 0x1000]\<rparr>)"
proof -
  have h: "may_enter 1 (MemTracker_ctor :: 64 word process)"
          "\<not> paused (MemTracker_ctor :: 64 word process)"
          "(0x1000 :: 64 word) \<noteq> 0" "0x1000 \<notin> keys (MemTracker_ctor :: 64 word process)"
    by (simp_all add: MemTracker_ctor_ready MemTracker_ctor_fields)
  have f: "fmt_p (0x401000 :: 64 word) = ''0000000000401000''"
    by (simp add: fmt_p_def digit_char_def upt_rec [of _ "numeral _"] upt_rec [of _ "Suc _"])
  have l: "frame_line (\<lambda>a. None) (0x401000 :: 64 word) =
             TAB @ TAB @ ''Unresolved address: 0000000000401000'' @ NL"
    by (simp add: frame_line_def sntprintf_s_def f)
  show ?thesis
    using h untracked_free_diagnostic [OF h, of "Delete 0x1000 [0x401000, 0] []" "[0x401000, 0]" "[]"
        "''''" 0 "\<lambda>a. None"]
    by (simp add: MemTracker_ctor_fields STACK_TRACE_DEPTH_def l untracked_free_message_def)
qed

subsection \<open>Calls made from inside a mutation of the pool\<close>

text \<open>
  Claim C5. When a thread is let into the tracker, \<open>AddPointer\<close> and \<open>RemovePointer\<close>
  take the critical section and, before they touch the pool, set \<open>paused\<close>. In the state
  so reached every call that the same thread makes back into a hooked entry point
  returns (the thread enters the section it already owns) and changes the record of
  the real allocator's calls alone: the pool, the flag and the section are as they
  were, whatever calls that inner call would itself have made. Hence an allocation with
  tracking active, whose container gets the storage it asks for, adds its own address to
  the pool and no address of the inner calls.
\<close>

theorem reentrant_call_not_recorded:
  assumes "may_enter tid w"
  shows "\<exists>w1. Lock_ctor tid w = Some w1 \<and>
           (\<forall>c. hook resolver tid c (w1\<lparr>paused := True\<rparr>) =
              Some (visible c,
                    w1\<lparr>paused := True, allocator_calls := allocator_calls w @ [real_call c]\<rparr>)) \<and>
           hooks resolver tid inner (w1\<lparr>paused := True\<rparr>) =
              Some (map visible inner,
                    w1\<lparr>paused := True, allocator_calls := allocator_calls w @ map real_call inner\<rparr>) \<and>
           (\<not> paused w \<and> ret \<noteq> 0 \<and> Allocated 0 \<notin> set (map visible inner) \<longrightarrow>
              hook resolver tid (New sz ret bt inner) w =
                Some (Allocated ret,
                      w\<lparr>memTrackerPool :=
                           AList.update ret (AllocationInfo_ctor sz bt) (memTrackerPool w),
                        allocator_calls :=
                           allocator_calls w @ Malloc sz ret #
                             (if ret \<in> keys w then [] else map real_call inner)\<rparr>))"
proof -
  from Lock_ctor_may_enter [OF assms] obtain cs where
    cs: "Lock_ctor tid w = Some (w\<lparr>critsec := cs\<rparr>)" "OwningThread cs = Some tid"
        "0 < RecursionCount cs"
    by blast
  let ?w1 = "w\<lparr>critsec := cs\<rparr>"
  have inside: "may_enter tid (?w1\<lparr>paused := True\<rparr>)" "paused (?w1\<lparr>paused := True\<rparr>)"
    using cs by (simp_all add: may_enter_def)
  have one: "\<forall>c. hook resolver tid c (?w1\<lparr>paused := True\<rparr>) =
              Some (visible c,
                    ?w1\<lparr>paused := True, allocator_calls := allocator_calls w @ [real_call c]\<rparr>)"
    using hook_paused [OF inside] by simp
  have many: "hooks resolver tid inner (?w1\<lparr>paused := True\<rparr>) =
              Some (map visible inner,
                    ?w1\<lparr>paused := True, allocator_calls := allocator_calls w @ map real_call inner\<rparr>)"
    using hooks_paused [OF inside] by simp
  have outer: "\<not> paused w \<and> ret \<noteq> 0 \<and> Allocated 0 \<notin> set (map visible inner) \<longrightarrow>
              hook resolver tid (New sz ret bt inner) w =
                Some (Allocated ret,
                      w\<lparr>memTrackerPool :=
                           AList.update ret (AllocationInfo_ctor sz bt) (memTrackerPool w),
                        allocator_calls :=
                           allocator_calls w @ Malloc sz ret #
                             (if ret \<in> keys w then [] else map real_call inner)\<rparr>)"
    using operator_new_effect [OF assms, of resolver inner sz ret bt] by simp
  from cs(1) one many outer show ?thesis by blast
qed

theorem reentrant_call_not_recorded_witness:
  "may_enter 1 (MemTracker_ctor :: 64 word process) \<and>
   \<not> paused (MemTracker_ctor :: 64 word process) \<and> (0x1000 :: 64 word) \<noteq> 0 \<and>
   hook no_symbols 1 (New 64 0x1000 [] [New 32 0x2000 [] [New 8 0x3000 [] []], Delete 0x2000 [] []])
     (MemTracker_ctor :: 64 word process) =
     Some (Allocated 0x1000,
           MemTracker_ctor\<lparr>memTrackerPool := [(0x1000, AllocationInfo_ctor 64 [])],
             allocator_calls := [Malloc 64 0x1000, Malloc 32 0x2000, Free 0x2000]\<rparr>)"
proof -
  have h: "may_enter 1 (MemTracker_ctor :: 64 word process)"
    by (simp add: MemTracker_ctor_ready)
  have n: "\<not> paused (MemTracker_ctor :: 64 word process)" "(0x1000 :: 64 word) \<noteq> 0"
    "Allocated 0 \<notin> set (map visible
        [New 32 0x2000 [] [New 8 0x3000 [] []], Delete 0x2000 [] [] :: 64 word hook_call])"
    by (simp_all add: MemTracker_ctor_fields)
  from reentrant_call_not_recorded [OF h, of no_symbols
      "[New 32 0x2000 [] [New 8 0x3000 [] []], Delete 0x2000 [] []]" "0x1000" 64 "[]"]
  have "hook no_symbols 1
          (New 64 0x1000 [] [New 32 0x2000 [] [New 8 0x3000 [] []], Delete 0x2000 [] []])
          (MemTracker_ctor :: 64 word process) =
        Some (Allocated 0x1000,
          MemTracker_ctor\<lparr>memTrackerPool :=
              AList.update 0x1000 (AllocationInfo_ctor 64 []) (memTrackerPool MemTracker_ctor),
            allocator_calls := allocator_calls MemTracker_ctor @
              Malloc 64 0x1000 #
              (if 0x1000 \<in> keys (MemTracker_ctor :: 64 word process) then []
               else map real_call [New 32 0x2000 [] [New 8 0x3000 [] []], Delete 0x2000 [] []])\<rparr>)"
    using n by blast
  then show ?thesis
    using h n by (simp add: MemTracker_ctor_fields MemTracker_ctor_ready)
qed

subsection \<open>A second Add for a key of the pool\<close>

lemma length_update_key:
  assumes "k \<in> fst ` set al"
  shows "length (AList.update k v al) = length al"
proof -
  have "length (map fst (AList.update k v al)) = length (map fst al)"
    using assms by (simp only: update_keys) simp
  then show ?thesis by simp
qed

lemma keys_delete: "fst ` set (AList.delete k al) = fst ` set al - {k}"
proof -
  have "set (map fst (AList.delete k al)) = set (map fst al) - {k}"
    by (simp only: delete_keys) simp
  then show ?thesis by simp
qed

lemma one_entry:
  assumes "distinct (map fst al)" "p \<in> fst ` set al"
  shows "length (filter (\<lambda>entry. fst entry = p) al) = 1"
  using assms
proof (induction al)
  case Nil
  then show ?case by simp
next
  case (Cons e al)
  show ?case
  proof (cases "fst e = p")
    case True
    with Cons.prems(1) have "p \<notin> fst ` set al" by auto
    then have "filter (\<lambda>entry. fst entry = p) al = []" by (simp add: erased_zero)
    with True show ?thesis by simp
  next
    case False
    with Cons show ?thesis by auto
  qed
qed

text \<open>
  Claim C7. A second \<open>AddPointer\<close> for a non-null address that is a key of the pool,
  with tracking active, returns, and afterwards the pool maps the address to the record
  of the new size and of the stack captured in the second call; the pool has exactly
  one entry for the address, the same keys and the same number of entries as before,
  and every other key keeps its record. Nothing is passed to the output sink. The keys
  of the pool are distinct, as those of the container are, before and after.
\<close>

theorem duplicate_Add_overwrites:
  assumes "may_enter tid w" "\<not> paused w" "p \<noteq> 0" "p \<in> keys w"
    and "distinct (map fst (memTrackerPool w))"
  shows "\<exists>w'. AddPointer (hooks resolver tid inner) tid p sz' bt w = Some w' \<and>
           map_of (memTrackerPool w') p = Some (AllocationInfo_ctor sz' bt) \<and>
           size_bytes (the (map_of (memTrackerPool w') p)) = sz' \<and>
           length (filter (\<lambda>entry. fst entry = p) (memTrackerPool w')) = 1 \<and>
           (\<forall>q. q \<noteq> p \<longrightarrow> map_of (memTrackerPool w') q = map_of (memTrackerPool w) q) \<and>
           keys w' = keys w \<and>
           length (memTrackerPool w') = length (memTrackerPool w) \<and>
           distinct (map fst (memTrackerPool w')) \<and>
           debug_output w' = debug_output w \<and> paused w' = paused w \<and> critsec w' = critsec w"
proof -
  let ?al = "AList.update p (AllocationInfo_ctor sz' bt) (memTrackerPool w)"
  have d: "distinct (map fst ?al)" using assms(5) by (rule distinct_update)
  have k: "fst ` set ?al = keys w" using assms(4) by (auto simp: dom_update keys_def)
  have "length (filter (\<lambda>entry. fst entry = p) ?al) = 1"
    using d k assms(4) by (intro one_entry) auto
  moreover have "length ?al = length (memTrackerPool w)"
    using assms(4) by (simp add: length_update_key keys_def)
  moreover have "map_of ?al p = Some (AllocationInfo_ctor sz' bt)"
    by (simp add: update_conv')
  moreover have "\<forall>q. q \<noteq> p \<longrightarrow> map_of ?al q = map_of (memTrackerPool w) q"
    by (simp add: update_conv')
  ultimately show ?thesis
    using AddPointer_active [OF assms(1-3), of inner resolver sz' bt] assms(4) d k
    by (simp add: keys_def AllocationInfo_ctor_def)
qed

theorem duplicate_Add_overwrites_witness:
  "(let w = (MemTracker_ctor :: 64 word process)
            \<lparr>memTrackerPool := [(0x1000, AllocationInfo_ctor 64 []), (0x2000, AllocationInfo_ctor 8 [])]\<rparr>
    in may_enter 1 w \<and> \<not> paused w \<and> (0x1000 :: 64 word) \<noteq> 0 \<and> 0x1000 \<in> keys w \<and>
       distinct (map fst (memTrackerPool w)) \<and>
       (\<exists>w'. AddPointer (hooks (\<lambda>a. None) 1 []) 1 0x1000 32 [] w = Some w' \<and>
          map_of (memTrackerPool w') 0x1000 = Some (AllocationInfo_ctor 32 []) \<and>
          length (filter (\<lambda>entry. fst entry = 0x1000) (memTrackerPool w')) = 1 \<and>
          debug_output w' = debug_output w))"
proof -
  let ?w = "(MemTracker_ctor :: 64 word process)
            \<lparr>memTrackerPool := [(0x1000, AllocationInfo_ctor 64 []), (0x2000, AllocationInfo_ctor 8 [])]\<rparr>"
  have h: "may_enter 1 ?w" "\<not> paused ?w" "(0x1000 :: 64 word) \<noteq> 0" "0x1000 \<in> keys ?w"
          "distinct (map fst (memTrackerPool ?w))"
    by (simp_all add: may_enter_def keys_def MemTracker_ctor_fields)
  from duplicate_Add_overwrites [OF h, of "\<lambda>a. None" "[]" 32 "[]"] h
  show ?thesis unfolding Let_def by blast
qed

subsection \<open>Sequences of calls\<close>

lemma hook_effect:
  assumes "may_enter tid w" "container_served c"
  shows "\<exists>w'. hook resolver tid c w = Some (visible c, w') \<and> critsec w' = critsec w \<and>
           paused w' = paused w \<and>
           (paused w \<longrightarrow> memTrackerPool w' = memTrackerPool w) \<and>
           (\<not> paused w \<longrightarrow>
              keys w' = (case visible c of
                           Allocated p \<Rightarrow> if p = 0 then keys w else insert p (keys w)
                         | Freed q \<Rightarrow> if q = 0 then keys w else keys w - {q}))"
proof -
  have new: "\<And>sz ret bt inner. Allocated 0 \<notin> set (map visible inner) \<Longrightarrow>
    \<exists>w'. operator_new (hooks resolver tid inner) tid sz ret bt w = Some (ret, w') \<and>
      critsec w' = critsec w \<and> paused w' = paused w \<and>
      (paused w \<longrightarrow> memTrackerPool w' = memTrackerPool w) \<and>
      (\<not> paused w \<longrightarrow> keys w' = (if ret = 0 then keys w else insert ret (keys w)))"
    using operator_new_effect [OF assms(1), of resolver]
    by (auto simp: keys_def dom_update)
  have del: "\<And>p bt inner.
    \<exists>w'. operator_delete resolver (hooks resolver tid inner) tid p bt w = Some w' \<and>
      critsec w' = critsec w \<and> paused w' = paused w \<and>
      (paused w \<longrightarrow> memTrackerPool w' = memTrackerPool w) \<and>
      (\<not> paused w \<longrightarrow> keys w' = (if p = 0 then keys w else keys w - {p}))"
    using operator_delete_effect [OF assms(1), of resolver]
    by (auto simp: keys_def keys_delete)
  show ?thesis
  proof (cases c)
    case (New sz ret bt inner)
    with new [of inner sz ret bt] assms(2) show ?thesis by (auto simp: container_served_def)
  next
    case (NewArray sz ret bt inner)
    with new [of inner sz ret bt] assms(2) show ?thesis
      by (auto simp: operator_new_forms container_served_def)
  next
    case (NewAt sz fname lno ret bt inner)
    with new [of inner sz ret bt] assms(2) show ?thesis
      by (auto simp: operator_new_forms container_served_def)
  next
    case (NewArrayAt sz fname lno ret bt inner)
    with new [of inner sz ret bt] assms(2) show ?thesis
      by (auto simp: operator_new_forms container_served_def)
  next
    case (Delete p bt inner)
    with del [of inner p bt] show ?thesis by auto
  next
    case (DeleteArray p bt inner)
    with del [of inner p bt] show ?thesis by (auto simp: operator_delete_forms)
  next
    case (DeleteAt p fname lno bt inner)
    with del [of inner p bt] show ?thesis by (auto simp: operator_delete_forms)
  next
    case (DeleteArrayAt p fname lno bt inner)
    with del [of inner p bt] show ?thesis by (auto simp: operator_delete_forms)
  qed
qed

lemma run_paused:
  assumes "unlocked w" "paused w"
  shows "run resolver calls w =
           Some (map (visible \<circ> snd) calls,
                 w\<lparr>allocator_calls := allocator_calls w @ map (real_call \<circ> snd) calls\<rparr>)"
  using assms
proof (induction calls arbitrary: w)
  case Nil
  then show ?case by simp
next
  case (Cons tc calls)
  obtain tid c where tc: "tc = (tid, c)" by (cases tc)
  let ?w1 = "w\<lparr>allocator_calls := allocator_calls w @ [real_call c]\<rparr>"
  have "unlocked ?w1" "paused ?w1" using Cons.prems by (simp_all add: unlocked_def)
  from Cons.IH [OF this]
    hook_paused [OF unlocked_may_enter [OF Cons.prems(1)] Cons.prems(2), where resolver = resolver and c = c and tid = tid]
  show ?case by (simp add: tc)
qed

lemma run_keys:
  assumes "unlocked w" "\<not> paused w" "0 \<notin> keys w" "S - {0} = keys w"
    and "\<forall>tc \<in> set calls. container_served (snd tc)"
  shows "\<exists>w'. run resolver calls w = Some (map (visible \<circ> snd) calls, w') \<and>
           unlocked w' \<and> \<not> paused w' \<and> 0 \<notin> keys w' \<and>
           foldl outstanding_step S (map (visible \<circ> snd) calls) - {0} = keys w'"
  using assms
proof (induction calls arbitrary: w S)
  case Nil
  then show ?case by simp
next
  case (Cons tc calls)
  obtain tid c where tc: "tc = (tid, c)" by (cases tc)
  have served: "container_served c" "\<forall>tc \<in> set calls. container_served (snd tc)"
    using Cons.prems(5) by (simp_all add: tc)
  from hook_effect [OF unlocked_may_enter [OF Cons.prems(1)] served(1), where resolver = resolver
      and tid = tid] Cons.prems(2)
  obtain w1 where w1: "hook resolver tid c w = Some (visible c, w1)" "critsec w1 = critsec w"
      "\<not> paused w1"
      "keys w1 = (case visible c of
                    Allocated p \<Rightarrow> if p = 0 then keys w else insert p (keys w)
                  | Freed q \<Rightarrow> if q = 0 then keys w else keys w - {q})"
    by auto
  have u: "unlocked w1" using Cons.prems(1) w1(2) by (simp add: unlocked_def)
  have z: "0 \<notin> keys w1" using Cons.prems(3) w1(4) by (auto split: observed.splits if_splits)
  have s: "outstanding_step S (visible c) - {0} = keys w1"
    using Cons.prems(3,4) w1(4)
    by (auto simp: outstanding_step_def split: observed.splits if_splits)
  from Cons.IH [OF u w1(3) z s served(2)] obtain w' where
    "run resolver calls w1 = Some (map (visible \<circ> snd) calls, w')" "unlocked w'" "\<not> paused w'"
    "0 \<notin> keys w'"
    "foldl outstanding_step (outstanding_step S (visible c)) (map (visible \<circ> snd) calls) - {0} = keys w'"
    by blast
  with w1(1) show ?case by (simp add: tc comp_def)
qed

lemma outstanding_nonnull:
  assumes "Allocated 0 \<notin> set seen" "0 \<notin> S"
  shows "0 \<notin> foldl outstanding_step S seen"
  using assms
proof (induction seen arbitrary: S)
  case Nil
  then show ?case by simp
next
  case (Cons e seen)
  have "0 \<notin> outstanding_step S e"
    using Cons.prems by (cases e) (auto simp: outstanding_step_def)
  with Cons show ?case by simp
qed

text \<open>
  Claim C1. Take a state with an empty pool, tracking active and no call inside the
  tracker, and from it any sequence of calls of the hooked entry points, by any threads,
  one after the other, in which the real allocator never returns null, neither for a
  request of a caller nor for a request the container makes for its own storage during
  one of the calls. Every call returns,
  tracking is active and the critical section free after the last one, and the keys of the
  pool are exactly the addresses the allocation entry points returned that were not
  passed to a deallocation entry point afterwards. The sequence is arbitrary, so this holds
  after each of its calls. The calls are those that arrive with tracking active; the calls
  the container makes from inside a mutation of the pool find tracking suppressed and are
  not part of the sequence (their addresses are never keys). That the addresses of live
  allocations are distinct is not needed.
\<close>

theorem registry_keys_are_outstanding:
  assumes "unlocked w" "\<not> paused w" "memTrackerPool w = []"
    and "Allocated 0 \<notin> set (map (visible \<circ> snd) calls)"
    and "\<forall>tc \<in> set calls. container_served (snd tc)"
  shows "\<exists>w'. run resolver calls w = Some (map (visible \<circ> snd) calls, w') \<and>
           keys w' = outstanding (map (visible \<circ> snd) calls) \<and>
           unlocked w' \<and> \<not> paused w'"
proof -
  have k: "keys w = {}" using assms(3) by (simp add: keys_def)
  from run_keys [OF assms(1,2) _ _ assms(5), of "{}" resolver] k
  obtain w' where w': "run resolver calls w = Some (map (visible \<circ> snd) calls, w')"
    "unlocked w'" "\<not> paused w'"
    "foldl outstanding_step {} (map (visible \<circ> snd) calls) - {0} = keys w'"
    by auto
  have "0 \<notin> foldl outstanding_step {} (map (visible \<circ> snd) calls)"
    using assms(4) by (intro outstanding_nonnull) auto
  with w' show ?thesis by (auto simp: outstanding_def)
qed

theorem registry_keys_are_outstanding_witness:
  "unlocked (MemTracker_ctor :: 64 word process) \<and> \<not> paused (MemTracker_ctor :: 64 word process) \<and>
   memTrackerPool (MemTracker_ctor :: 64 word process) = [] \<and>
   (\<exists>w'. run (\<lambda>a. None)
            [(1, New 10 0x1000 [] [New 24 0x5000 [] []]), (2, NewArray 20 0x2000 [] []),
             (2, Delete 0x1000 [] [Delete 0x5000 [] []]), (1, Delete 0x3000 [] [])]
            (MemTracker_ctor :: 64 word process) =
          Some ([Allocated 0x1000, Allocated 0x2000, Freed 0x1000, Freed 0x3000], w') \<and>
          keys w' = {0x2000})"
proof -
  let ?calls = "[(1, New 10 0x1000 [] [New 24 0x5000 [] []]), (2, NewArray 20 0x2000 [] []),
             (2, Delete 0x1000 [] [Delete 0x5000 [] []]), (1, Delete 0x3000 [] [])]
             :: (nat \<times> 64 word hook_call) list"
  have h: "unlocked (MemTracker_ctor :: 64 word process)"
          "\<not> paused (MemTracker_ctor :: 64 word process)"
          "memTrackerPool (MemTracker_ctor :: 64 word process) = []"
          "Allocated 0 \<notin> set (map (visible \<circ> snd) ?calls)"
          "\<forall>tc \<in> set ?calls. container_served (snd tc)"
    by (simp_all add: MemTracker_ctor_ready MemTracker_ctor_fields container_served_def)
  have o: "outstanding (map (visible \<circ> snd) ?calls) = {0x2000}"
    by (auto simp: outstanding_def outstanding_step_def)
  from registry_keys_are_outstanding [OF h, of "\<lambda>a. None"] o h(1-3)
  show ?thesis by (auto simp del: run.simps)
qed

text \<open>
  Claim C2. From a state with an empty pool, tracking active and no call inside the
  tracker, after any sequence of calls of the hooked entry points in which every
  non-null address returned by an allocation entry point is passed to a deallocation
  entry point later in the sequence, and in which the real allocator gives the container
  the storage it asks for during the calls, every call returns and the pool is empty.
\<close>

theorem matched_pairs_leave_registry_empty:
  assumes "unlocked w" "\<not> paused w" "memTrackerPool w = []"
    and "outstanding (map (visible \<circ> snd) calls) \<subseteq> {0}"
    and "\<forall>tc \<in> set calls. container_served (snd tc)"
  shows "\<exists>w'. run resolver calls w = Some (map (visible \<circ> snd) calls, w') \<and>
           memTrackerPool w' = []"
proof -
  have k: "keys w = {}" using assms(3) by (simp add: keys_def)
  from run_keys [OF assms(1,2) _ _ assms(5), of "{}" resolver] k
  obtain w' where w': "run resolver calls w = Some (map (visible \<circ> snd) calls, w')"
    "foldl outstanding_step {} (map (visible \<circ> snd) calls) - {0} = keys w'"
    by auto
  have "keys w' = {}" using w'(2) assms(4) by (auto simp: outstanding_def)
  then have "memTrackerPool w' = []" by (simp add: keys_def)
  with w'(1) show ?thesis by blast
qed

theorem matched_pairs_leave_registry_empty_witness:
  "unlocked (MemTracker_ctor :: 64 word process) \<and> \<not> paused (MemTracker_ctor :: 64 word process) \<and>
   memTrackerPool (MemTracker_ctor :: 64 word process) = [] \<and>
   (\<exists>w'. run (\<lambda>a. None)
            [(1, New 10 0x1000 [] [New 24 0x5000 [] []]), (1, Delete 0x1000 [] [Delete 0x5000 [] []]),
             (1, NewArray 20 0x1000 [] [New 24 0x5000 [] []]), (2, DeleteArray 0x1000 [] [])]
            (MemTracker_ctor :: 64 word process) =
          Some ([Allocated 0x1000, Freed 0x1000, Allocated 0x1000, Freed 0x1000], w') \<and>
          memTrackerPool w' = [])"
proof -
  let ?calls = "[(1, New 10 0x1000 [] [New 24 0x5000 [] []]), (1, Delete 0x1000 [] [Delete 0x5000 [] []]),
             (1, NewArray 20 0x1000 [] [New 24 0x5000 [] []]), (2, DeleteArray 0x1000 [] [])]
             :: (nat \<times> 64 word hook_call) list"
  have h: "unlocked (MemTracker_ctor :: 64 word process)"
          "\<not> paused (MemTracker_ctor :: 64 word process)"
          "memTrackerPool (MemTracker_ctor :: 64 word process) = []"
          "outstanding (map (visible \<circ> snd) ?calls) \<subseteq> {0}"
          "\<forall>tc \<in> set ?calls. container_served (snd tc)"
    by (simp_all add: MemTracker_ctor_ready MemTracker_ctor_fields outstanding_def
          outstanding_step_def container_served_def)
  from matched_pairs_leave_registry_empty [OF h, of "\<lambda>a. None"] h(1-3)
  show ?thesis by (auto simp del: run.simps)
qed

subsection \<open>A paused interval\<close>

text \<open>
  Claim C6. From a state with no call inside the tracker: \<open>Pause\<close> sets the flag and
  changes nothing else. While the flag is set, every \<open>AddPointer\<close> and every
  \<open>RemovePointer\<close> returns the state unchanged, and any sequence of calls of the hooked
  entry points, by any threads, changes the record of the real allocator's calls alone,
  so the pool is the one \<open>Pause\<close> found. \<open>Resume\<close> then clears the flag and changes nothing
  else; after it \<open>AddPointer\<close> of a non-null address stores its record in that pool,
  when the container gets the storage it asks for, and \<open>RemovePointer\<close> of a key of that
  pool removes its entry.
\<close>

theorem paused_interval_keeps_registry:
  assumes "unlocked w"
  shows "Pause t w = Some (w\<lparr>paused := True\<rparr>) \<and>
         AddPointer reenter tid p sz bt (w\<lparr>paused := True\<rparr>) = Some (w\<lparr>paused := True\<rparr>) \<and>
         RemovePointer resolver reenter tid p bt (w\<lparr>paused := True\<rparr>) = Some (w\<lparr>paused := True\<rparr>) \<and>
         run resolver calls (w\<lparr>paused := True\<rparr>) =
           Some (map (visible \<circ> snd) calls,
                 w\<lparr>paused := True,
                   allocator_calls := allocator_calls w @ map (real_call \<circ> snd) calls\<rparr>) \<and>
         Resume t' (w\<lparr>paused := True, allocator_calls := A\<rparr>) =
           Some (w\<lparr>paused := False, allocator_calls := A\<rparr>) \<and>
         (p \<noteq> 0 \<and> Allocated 0 \<notin> set (map visible inner) \<longrightarrow>
            AddPointer (hooks resolver tid inner) tid p sz bt (w\<lparr>paused := False, allocator_calls := A\<rparr>) =
              Some (w\<lparr>paused := False,
                      memTrackerPool := AList.update p (AllocationInfo_ctor sz bt) (memTrackerPool w),
                      allocator_calls := A @ (if p \<in> keys w then [] else map real_call inner)\<rparr>)) \<and>
         (p \<noteq> 0 \<and> p \<in> keys w \<longrightarrow>
            RemovePointer resolver (hooks resolver tid inner) tid p bt
                (w\<lparr>paused := False, allocator_calls := A\<rparr>) =
              Some (w\<lparr>paused := False,
                      memTrackerPool := AList.delete p (memTrackerPool w),
                      allocator_calls := A @ map real_call inner\<rparr>))"
proof -
  let ?wp = "w\<lparr>paused := True\<rparr>"
  let ?wr = "w\<lparr>paused := False, allocator_calls := A\<rparr>"
  have up: "unlocked ?wp" "paused ?wp" using assms by (simp_all add: unlocked_def)
  have ua: "unlocked (w\<lparr>paused := True, allocator_calls := A\<rparr>)"
    using assms by (simp add: unlocked_def)
  have mr: "may_enter tid ?wr" "\<not> paused ?wr" using assms by (simp_all add: unlocked_def may_enter_def)
  have 1: "Pause t w = Some ?wp" by (rule Pause_unlocked [OF assms])
  have 2: "AddPointer reenter tid p sz bt ?wp = Some ?wp"
    using up by (intro AddPointer_skipped unlocked_may_enter) auto
  have 3: "RemovePointer resolver reenter tid p bt ?wp = Some ?wp"
    using up by (intro RemovePointer_skipped unlocked_may_enter) auto
  have 4: "run resolver calls ?wp =
           Some (map (visible \<circ> snd) calls,
                 w\<lparr>paused := True,
                   allocator_calls := allocator_calls w @ map (real_call \<circ> snd) calls\<rparr>)"
    using run_paused [OF up, of resolver calls] by simp
  have 5: "Resume t' (w\<lparr>paused := True, allocator_calls := A\<rparr>) = Some ?wr"
    using Resume_unlocked [OF ua, of t'] by simp
  have 6: "p \<noteq> 0 \<and> Allocated 0 \<notin> set (map visible inner) \<longrightarrow>
            AddPointer (hooks resolver tid inner) tid p sz bt ?wr =
              Some (w\<lparr>paused := False,
                      memTrackerPool := AList.update p (AllocationInfo_ctor sz bt) (memTrackerPool w),
                      allocator_calls := A @ (if p \<in> keys w then [] else map real_call inner)\<rparr>)"
    using AddPointer_active [OF mr, of p inner resolver sz bt] by (simp add: keys_def)
  have 7: "p \<noteq> 0 \<and> p \<in> keys w \<longrightarrow>
            RemovePointer resolver (hooks resolver tid inner) tid p bt ?wr =
              Some (w\<lparr>paused := False,
                      memTrackerPool := AList.delete p (memTrackerPool w),
                      allocator_calls := A @ map real_call inner\<rparr>)"
    using RemovePointer_active [OF mr, of p resolver inner bt] by (simp add: keys_def)
  from 1 2 3 4 5 6 7 show ?thesis by blast
qed

theorem paused_interval_keeps_registry_witness:
  "(let w = (MemTracker_ctor :: 64 word process)\<lparr>memTrackerPool := [(0x1000, AllocationInfo_ctor 64 [])]\<rparr>
    in unlocked w \<and> (0x1000 :: 64 word) \<noteq> 0 \<and> 0x1000 \<in> keys w \<and>
       run (\<lambda>a. None) [(1, New 8 0x2000 [] []), (2, Delete 0x1000 [] [])] (w\<lparr>paused := True\<rparr>) =
         Some ([Allocated 0x2000, Freed 0x1000],
               w\<lparr>paused := True, allocator_calls := [Malloc 8 0x2000, Free 0x1000]\<rparr>) \<and>
       Resume 1 (w\<lparr>paused := True, allocator_calls := [Malloc 8 0x2000, Free 0x1000]\<rparr>) =
         Some (w\<lparr>paused := False, allocator_calls := [Malloc 8 0x2000, Free 0x1000]\<rparr>) \<and>
       RemovePointer (\<lambda>a. None) (hooks (\<lambda>a. None) 1 []) 1 0x1000 []
           (w\<lparr>paused := False, allocator_calls := [Malloc 8 0x2000, Free 0x1000]\<rparr>) =
         Some (w\<lparr>paused := False, memTrackerPool := [],
                 allocator_calls := [Malloc 8 0x2000, Free 0x1000]\<rparr>))"
proof -
  let ?w = "(MemTracker_ctor :: 64 word process)\<lparr>memTrackerPool := [(0x1000, AllocationInfo_ctor 64 [])]\<rparr>"
  have h: "unlocked ?w" by (simp add: unlocked_def MemTracker_ctor_fields)
  have k: "(0x1000 :: 64 word) \<noteq> 0" "0x1000 \<in> keys ?w" by (simp_all add: keys_def)
  from paused_interval_keeps_registry [OF h, where resolver = "\<lambda>a. None" and tid = 1 and t' = 1
      and p = "0x1000" and bt = "[]" and inner = "[]"
      and calls = "[(1, New 8 0x2000 [] []), (2, Delete 0x1000 [] [])]"
      and A = "[Malloc 8 0x2000, Free 0x1000]"] h k
  show ?thesis
    unfolding Let_def
    by (simp del: run.simps hooks.simps add: MemTracker_ctor_fields)
qed

subsection \<open>The report at teardown\<close>

lemma report_entry_eq:
  assumes "length (stack (snd entry)) = STACK_TRACE_DEPTH"
  shows "report_entry resolver (w, t) entry =
           (w\<lparr>dbgInitialized := True,
              debug_output := debug_output w @ entry_lines resolver entry\<rparr>,
            t + size_bytes (snd entry))"
  by (simp add: report_entry_def DumpToDebugOutput_eq [OF assms] OutputDebugString_def
        entry_lines_def leak_line_def)

lemma foldl_report_entry:
  assumes "\<forall>entry \<in> set es. length (stack (snd entry)) = STACK_TRACE_DEPTH"
  shows "foldl (report_entry resolver) (w, t) es =
           (w\<lparr>dbgInitialized := (dbgInitialized w \<or> es \<noteq> []),
              debug_output := debug_output w @ concat (map (entry_lines resolver) es)\<rparr>,
            t + sum_list (map (\<lambda>entry. size_bytes (snd entry)) es))"
  using assms
proof (induction es arbitrary: w t)
  case Nil
  then show ?case by simp
next
  case (Cons e es)
  have e: "length (stack (snd e)) = STACK_TRACE_DEPTH" using Cons.prems by simp
  have es: "\<forall>entry \<in> set es. length (stack (snd entry)) = STACK_TRACE_DEPTH"
    using Cons.prems by simp
  show ?case
    by (simp add: report_entry_eq [OF e] Cons.IH [OF es] add.assoc)
qed

lemma unat_sum_list:
  "unat (sum_list (map f xs) :: 'a::len word) =
     sum_list (map (\<lambda>x. unat (f x)) xs) mod 2 ^ LENGTH('a)"
proof (induction xs)
  case Nil
  then show ?case by simp
next
  case (Cons x xs)
  have "unat (f x + sum_list (map f xs)) =
          (unat (f x) + unat (sum_list (map f xs))) mod 2 ^ LENGTH('a)"
    by (simp add: unat_word_ariths)
  also have "\<dots> = (unat (f x) + sum_list (map (\<lambda>x. unat (f x)) xs)) mod 2 ^ LENGTH('a)"
    by (simp add: Cons.IH mod_add_right_eq)
  finally show ?case by simp
qed

lemma MemTracker_dtor_output:
  assumes "\<forall>entry \<in> set (memTrackerPool w). length (stack (snd entry)) = STACK_TRACE_DEPTH"
  shows "debug_output (MemTracker_dtor resolver w) =
           debug_output w @
           (if memTrackerPool w = [] then [no_leaks_banner]
            else report_header #
                 concat (map (entry_lines resolver) (memTrackerPool w)) @
                 [total_line (sum_list (map (\<lambda>entry. size_bytes (snd entry)) (memTrackerPool w)))])"
proof -
  let ?w2 = "OutputDebugString report_header (w\<lparr>paused := True\<rparr>)"
  have pool: "memTrackerPool ?w2 = memTrackerPool w" by (simp add: OutputDebugString_def)
  have f: "foldl (report_entry resolver) (?w2, 0) (memTrackerPool w) =
           (?w2\<lparr>dbgInitialized := (dbgInitialized ?w2 \<or> memTrackerPool w \<noteq> []),
              debug_output := debug_output ?w2 @ concat (map (entry_lines resolver) (memTrackerPool w))\<rparr>,
            0 + sum_list (map (\<lambda>entry. size_bytes (snd entry)) (memTrackerPool w)))"
    by (rule foldl_report_entry [OF assms])
  show ?thesis
    using f
    by (simp add: MemTracker_dtor_def pool report_header_def total_line_def OutputDebugString_def)
qed

lemma MemTracker_dtor_frame:
  "memTrackerPool (MemTracker_dtor resolver w) = memTrackerPool w \<and>
   paused (MemTracker_dtor resolver w)"
proof -
  have "\<And>es acc. memTrackerPool (fst (foldl (report_entry resolver) acc es)) = memTrackerPool (fst acc)
                 \<and> paused (fst (foldl (report_entry resolver) acc es)) = paused (fst acc)"
  proof -
    fix es and acc :: "'a word process \<times> 'a word"
    show "memTrackerPool (fst (foldl (report_entry resolver) acc es)) = memTrackerPool (fst acc)
            \<and> paused (fst (foldl (report_entry resolver) acc es)) = paused (fst acc)"
      by (induction es arbitrary: acc)
         (auto simp: report_entry_def DumpToDebugOutput_def OutputDebugString_def InitializeSym_def
            foldl_output Let_def split: prod.splits)
  qed
  note inv = this [of "(OutputDebugString (NL @ ''--- Memleaks start here ---'' @ NL @ NL) (w\<lparr>paused := True\<rparr>), 0)"
                      "memTrackerPool w"]
  show ?thesis
    using inv
    by (auto simp: MemTracker_dtor_def OutputDebugString_def Let_def split: prod.splits)
qed

lemma entry_lines_eq:
  "entry_lines resolver =
     (\<lambda>entry. leak_line (size_bytes (snd entry)) #
               map (frame_line resolver) (filter (\<lambda>a. a \<noteq> 0) (stack (snd entry))) @ [NL])"
  by (intro ext) (simp add: entry_lines_def stack_lines_def)

lemma dec_nat_64: "dec_nat 64 = ''64''"
  by (simp add: dec_nat.simps digit_char_def)

lemma fmt_p_example: "fmt_p (0x401000 :: 64 word) = ''0000000000401000''"
  by (simp add: fmt_p_def digit_char_def upt_rec [of _ "numeral _"] upt_rec [of _ "Suc _"])

lemma example_lines:
  "leak_line (64 :: 64 word) = ''Leak: 64 bytes'' @ NL"
  "total_line (64 :: 64 word) = TAB @ ''Total bytes leaked: 64'' @ NL @ NL"
  "frame_line no_symbols (0x401000 :: 64 word) =
     TAB @ TAB @ ''Unresolved address: 0000000000401000'' @ NL"
  "spec_frame_line no_symbols (0x401000 :: 64 word) =
     ''        Unresolved address: 0000000000401000'' @ NL"
  by (simp_all add: leak_line_def total_line_def frame_line_def spec_frame_line_def spec_indent_def
        no_symbols_def sntprintf_s_def fmt_zu_def dec_nat_64 fmt_p_example)

lemma example_stack:
  "filter (\<lambda>a. a \<noteq> 0) (stack (AllocationInfo_ctor sz [0x401000 :: 64 word])) = [0x401000]"
  "length (stack (AllocationInfo_ctor sz [0x401000 :: 64 word])) = STACK_TRACE_DEPTH"
  "size_bytes (AllocationInfo_ctor sz bt) = sz"
  by (simp_all add: AllocationInfo_ctor_def StackTracker_ctor_def STACK_TRACE_DEPTH_def)

text \<open>The scenario "allocate 64 bytes, never free": the state before teardown.\<close>

lemma leak_64_reached:
  "run no_symbols [(1, New 64 0x1000 [0x401000] [])] (MemTracker_ctor :: 64 word process) =
     Some ([Allocated 0x1000],
           MemTracker_ctor\<lparr>memTrackerPool := [(0x1000, AllocationInfo_ctor 64 [0x401000])],
             allocator_calls := [Malloc 64 0x1000]\<rparr>)"
proof -
  have m: "may_enter 1 (MemTracker_ctor :: 64 word process)"
    by (simp add: MemTracker_ctor_ready)
  show ?thesis
    using operator_new_effect [OF m, where resolver = no_symbols and inner = "[]" and sz = 64
        and ret = "0x1000" and bt = "[0x401000]"]
    by (simp add: MemTracker_ctor_fields)
qed

lemma size_t_sum_wraps:
  "total_line (sum_list (map (\<lambda>entry. size_bytes (snd entry))
      [(0x1000 :: 64 word, AllocationInfo_ctor (0x8000000000000000 :: 64 word) []),
       (0x2000, AllocationInfo_ctor 0x8000000000000000 [])])) =
     TAB @ ''Total bytes leaked: 0'' @ NL @ NL"
proof -
  have s: "sum_list (map (\<lambda>entry. size_bytes (snd entry))
      [(0x1000 :: 64 word, AllocationInfo_ctor (0x8000000000000000 :: 64 word) []),
       (0x2000, AllocationInfo_ctor 0x8000000000000000 [])]) = 0"
    by (simp add: AllocationInfo_ctor_def)
  have d: "dec_nat 0 = ''0''" by (simp add: dec_nat.simps [of 0] digit_char_def)
  show ?thesis
    unfolding s by (simp add: total_line_def fmt_zu_def sntprintf_s_def d)
qed

text \<open>
  Claim C3, as stated: the report would be the text of the specification's External
  Interfaces section. For one record of 64 bytes with one unresolved frame the text the
  destructor emits is not that text: it starts with an empty line, indents the frame
  with two tabs and the total with one tab, and has an empty line after the frames of
  the record.
\<close>

theorem leak_report_format_counterexample:
  "concat (debug_output (MemTracker_dtor no_symbols
      ((MemTracker_ctor :: 64 word process)
         \<lparr>memTrackerPool := [(0x1000, AllocationInfo_ctor 64 [0x401000])],
           allocator_calls := [Malloc 64 0x1000]\<rparr>))) =
     NL @ ''--- Memleaks start here ---'' @ NL @ NL @
     ''Leak: 64 bytes'' @ NL @
     TAB @ TAB @ ''Unresolved address: 0000000000401000'' @ NL @ NL @
     TAB @ ''Total bytes leaked: 64'' @ NL @ NL
   \<and> spec_report_text no_symbols [(0x1000 :: 64 word, AllocationInfo_ctor 64 [0x401000])] =
     ''--- Memleaks start here ---'' @ NL @ NL @
     ''Leak: 64 bytes'' @ NL @
     ''        Unresolved address: 0000000000401000'' @ NL @
     ''        Total bytes leaked: 64'' @ NL @ NL
   \<and> concat (debug_output (MemTracker_dtor no_symbols
      ((MemTracker_ctor :: 64 word process)
         \<lparr>memTrackerPool := [(0x1000, AllocationInfo_ctor 64 [0x401000])],
           allocator_calls := [Malloc 64 0x1000]\<rparr>))) \<noteq>
     spec_report_text no_symbols [(0x1000 :: 64 word, AllocationInfo_ctor 64 [0x401000])]"
proof -
  let ?w = "(MemTracker_ctor :: 64 word process)
         \<lparr>memTrackerPool := [(0x1000, AllocationInfo_ctor 64 [0x401000])],
           allocator_calls := [Malloc 64 0x1000]\<rparr>"
  have h: "\<forall>entry \<in> set (memTrackerPool ?w). length (stack (snd entry)) = STACK_TRACE_DEPTH"
    by (simp add: example_stack)
  have code: "concat (debug_output (MemTracker_dtor no_symbols ?w)) =
     NL @ ''--- Memleaks start here ---'' @ NL @ NL @
     ''Leak: 64 bytes'' @ NL @
     TAB @ TAB @ ''Unresolved address: 0000000000401000'' @ NL @ NL @
     TAB @ ''Total bytes leaked: 64'' @ NL @ NL"
    by (simp add: MemTracker_dtor_output [OF h] entry_lines_eq example_stack example_lines
          MemTracker_ctor_fields report_header_def)
  have spec: "spec_report_text no_symbols [(0x1000 :: 64 word, AllocationInfo_ctor 64 [0x401000])] =
     ''--- Memleaks start here ---'' @ NL @ NL @
     ''Leak: 64 bytes'' @ NL @
     ''        Unresolved address: 0000000000401000'' @ NL @
     ''        Total bytes leaked: 64'' @ NL @ NL"
    by (simp add: spec_report_text_def spec_entry_text_def example_stack example_lines
          spec_indent_def fmt_zu_def dec_nat_64)
  show ?thesis
    unfolding code spec by simp
qed

text \<open>
  Claim C3, amended. The destructor sets \<open>paused\<close> and leaves the pool as it is. With an
  empty pool it passes one string to the sink, the banner: a line of 58 asterisks, a line
  of five tabs and \<open>No memleaks found.\<close>, a line of 58 asterisks, an empty line. Otherwise
  it passes: an empty line, \<open>--- Memleaks start here ---\<close> and an empty line; for every
  record of the pool, once, in the container's order (the statement is for every order
  of the list), the line \<open>Leak: <size> bytes\<close>, then for each non-null frame of the
  record's stack the line of two tabs and \<open><file> (<line>)\<close>, or two tabs and
  \<open>Unresolved address: <hexaddr>\<close> when the frame does not resolve, then an empty line;
  last, a tab, \<open>Total bytes leaked: <sum>\<close> and an empty line. Each formatted line is cut
  to 1023 characters. The sum is the \<open>size_t\<close> sum of the sizes of the records: the sum
  of the sizes modulo two to the width of \<open>size_t\<close>.
\<close>

theorem leak_report_exact:
  fixes w :: "'a::len word process"
  assumes "\<forall>entry \<in> set (memTrackerPool w). length (stack (snd entry)) = STACK_TRACE_DEPTH"
  shows "debug_output (MemTracker_dtor resolver w) =
           debug_output w @
           (if memTrackerPool w = [] then [no_leaks_banner]
            else report_header #
                 concat (map (\<lambda>entry. leak_line (size_bytes (snd entry)) #
                                 map (frame_line resolver)
                                   (filter (\<lambda>a. a \<noteq> 0) (stack (snd entry))) @ [NL])
                           (memTrackerPool w)) @
                 [total_line (sum_list (map (\<lambda>entry. size_bytes (snd entry)) (memTrackerPool w)))])
         \<and> unat (sum_list (map (\<lambda>entry. size_bytes (snd entry)) (memTrackerPool w))) =
             sum_list (map (\<lambda>entry. unat (size_bytes (snd entry))) (memTrackerPool w))
               mod 2 ^ LENGTH('a)
         \<and> memTrackerPool (MemTracker_dtor resolver w) = memTrackerPool w
         \<and> paused (MemTracker_dtor resolver w)"
  using MemTracker_dtor_output [OF assms, of resolver] MemTracker_dtor_frame [of resolver w]
  by (simp add: entry_lines_eq unat_sum_list)

theorem leak_report_exact_witness:
  "memTrackerPool ((MemTracker_ctor :: 64 word process)
         \<lparr>memTrackerPool := [(0x1000, AllocationInfo_ctor 64 [0x401000])],
           allocator_calls := [Malloc 64 0x1000]\<rparr>) =
     [(0x1000, AllocationInfo_ctor 64 [0x401000])] \<and>
   length (stack (AllocationInfo_ctor 64 [0x401000 :: 64 word])) = STACK_TRACE_DEPTH \<and>
   debug_output (MemTracker_dtor no_symbols
      ((MemTracker_ctor :: 64 word process)
         \<lparr>memTrackerPool := [(0x1000, AllocationInfo_ctor 64 [0x401000])],
           allocator_calls := [Malloc 64 0x1000]\<rparr>)) =
     [NL @ ''--- Memleaks start here ---'' @ NL @ NL,
      ''Leak: 64 bytes'' @ NL,
      TAB @ TAB @ ''Unresolved address: 0000000000401000'' @ NL,
      NL,
      TAB @ ''Total bytes leaked: 64'' @ NL @ NL]"
proof -
  let ?w = "(MemTracker_ctor :: 64 word process)
         \<lparr>memTrackerPool := [(0x1000, AllocationInfo_ctor 64 [0x401000])],
           allocator_calls := [Malloc 64 0x1000]\<rparr>"
  have h: "\<forall>entry \<in> set (memTrackerPool ?w). length (stack (snd entry)) = STACK_TRACE_DEPTH"
    by (simp add: example_stack)
  from leak_report_exact [OF h, of no_symbols] h
  show ?thesis
    by (simp add: example_stack example_lines MemTracker_ctor_fields report_header_def)
qed

end
